theory Spec2Isabelle
  imports Complex_Main
begin

section \<open>Strings as the code uses them\<close>

text \<open>
  JavaScript strings are modelled as \<open>string\<close> (a list of characters). Only the string
  operations the two classes call are defined, each with the JavaScript method's meaning.
\<close>

definition startsWith :: "string \<Rightarrow> string \<Rightarrow> bool" where
  "startsWith s p = (take (length p) s = p)"

definition endsWith :: "string \<Rightarrow> string \<Rightarrow> bool" where
  "endsWith s p = (length p \<le> length s \<and> drop (length s - length p) s = p)"

text \<open>\<open>s.includes(p)\<close>: \<open>p\<close> occurs in \<open>s\<close> as a contiguous substring.\<close>

fun str_includes :: "string \<Rightarrow> string \<Rightarrow> bool" where
  "str_includes [] p = (p = [])"
| "str_includes (c # s) p = (startsWith (c # s) p \<or> str_includes s p)"

text \<open>
  \<open>toLowerCase\<close> and \<open>toUpperCase\<close> on the ASCII letters; other characters are left as
  they are.
\<close>

definition lower_char :: "char \<Rightarrow> char" where
  "lower_char c =
     (if 65 \<le> (of_char c :: nat) \<and> (of_char c :: nat) \<le> 90
      then char_of ((of_char c :: nat) + 32) else c)"

definition upper_char :: "char \<Rightarrow> char" where
  "upper_char c =
     (if 97 \<le> (of_char c :: nat) \<and> (of_char c :: nat) \<le> 122
      then char_of ((of_char c :: nat) - 32) else c)"

definition toLowerCase :: "string \<Rightarrow> string" where
  "toLowerCase s = map lower_char s"

definition toUpperCase :: "string \<Rightarrow> string" where
  "toUpperCase s = map upper_char s"

text \<open>The ASCII members of the regular-expression class \<open>\s\<close>.\<close>

definition is_space :: "char \<Rightarrow> bool" where
  "is_space c = ((of_char c :: nat) \<in> {9, 10, 11, 12, 13, 32})"

text \<open>The class \<open>[a-z0-9]\<close>.\<close>

definition is_lower_alnum :: "char \<Rightarrow> bool" where
  "is_lower_alnum c =
     ((97 \<le> (of_char c :: nat) \<and> (of_char c :: nat) \<le> 122)
      \<or> (48 \<le> (of_char c :: nat) \<and> (of_char c :: nat) \<le> 57))"

definition trim :: "string \<Rightarrow> string" where
  "trim s = rev (dropWhile is_space (rev (dropWhile is_space s)))"

text \<open>
  \<open>s.replace(pat, repl)\<close> with a string pattern replaces the first occurrence only, and
  expands the \<open>$\<close> patterns of the replacement text: \<open>$$\<close> is a dollar sign, \<open>$&\<close> the
  matched text, \<open>$`\<close> the text before the match and \<open>$'\<close> the text after it. A string
  pattern captures nothing, so every other \<open>$\<close> stays as it is.
\<close>

fun getSubstitution :: "string \<Rightarrow> string \<Rightarrow> string \<Rightarrow> string \<Rightarrow> string" where
  "getSubstitution matched pre post [] = []"
| "getSubstitution matched pre post [c] = [c]"
| "getSubstitution matched pre post (c # d # r) =
     (if c = CHR ''$'' \<and> d = CHR ''$'' then CHR ''$'' # getSubstitution matched pre post r
      else if c = CHR ''$'' \<and> d = CHR ''&'' then matched @ getSubstitution matched pre post r
      else if c = CHR ''$'' \<and> d = CHR 0x60 then pre @ getSubstitution matched pre post r
      else if c = CHR ''$'' \<and> d = CHR 0x27 then post @ getSubstitution matched pre post r
      else c # getSubstitution matched pre post (d # r))"

fun replace_from :: "string \<Rightarrow> string \<Rightarrow> string \<Rightarrow> string \<Rightarrow> string" where
  "replace_from pre [] pat repl =
     (if pat = [] then getSubstitution pat (rev pre) [] repl else rev pre)"
| "replace_from pre (c # s) pat repl =
     (if startsWith (c # s) pat
      then rev pre @ getSubstitution pat (rev pre) (drop (length pat) (c # s)) repl
             @ drop (length pat) (c # s)
      else replace_from (c # pre) s pat repl)"

definition replace :: "string \<Rightarrow> string \<Rightarrow> string \<Rightarrow> string" where
  "replace s pat repl = replace_from [] s pat repl"

section \<open>Promises, exceptions and the outside world\<close>

text \<open>
  The outside world answers differently at different moments. A natural number counts
  the effects performed so far; every request, clock reading and random draw is answered
  for the current count and advances it. An asynchronous computation takes the count and
  returns either the exception it was rejected with or its value, and the new count.
\<close>

datatype exn = TransportError | BadStatus nat | TypeError | ParseError | WrappedError exn

type_synonym 'a io = "nat \<Rightarrow> (exn + 'a) \<times> nat"

definition io_return :: "'a \<Rightarrow> 'a io" where
  "io_return x = (\<lambda>t. (Inr x, t))"

definition io_throw :: "exn \<Rightarrow> 'a io" where
  "io_throw e = (\<lambda>t. (Inl e, t))"

text \<open>\<open>await\<close> followed by the rest of the function: a rejection skips the rest.\<close>

definition io_bind :: "'a io \<Rightarrow> ('a \<Rightarrow> 'b io) \<Rightarrow> 'b io" where
  "io_bind m f = (\<lambda>t. case m t of (Inl e, t') \<Rightarrow> (Inl e, t') | (Inr x, t') \<Rightarrow> f x t')"

text \<open>\<open>try { m } catch (error) { h error }\<close>.\<close>

definition io_catch :: "'a io \<Rightarrow> (exn \<Rightarrow> 'a io) \<Rightarrow> 'a io" where
  "io_catch m h = (\<lambda>t. case m t of (Inl e, t') \<Rightarrow> h e t' | (Inr x, t') \<Rightarrow> (Inr x, t'))"

text \<open>Lifting a synchronous call that may throw.\<close>

definition io_of :: "exn + 'a \<Rightarrow> 'a io" where
  "io_of r = (\<lambda>t. (r, t))"


section \<open>The data model\<close>

datatype org_type = City | School | Chamber | Library | Parks

datatype feed_type = ICal | Rss | WebCal | Json | Html

datatype place_type = PlaceCity | PlaceCounty | PlaceTownship | PlaceVillage

text \<open>
  Instants (\<open>Date\<close> values) are milliseconds since the epoch. The optional fields of
  \<open>CalendarSource\<close> are options: \<open>None\<close> is JavaScript's \<open>undefined\<close>.
\<close>

type_synonym instant = int

record CalendarSource =
  src_id :: string
  src_name :: string
  src_city :: string
  src_state :: string
  src_type :: org_type
  feedUrl :: "string option"
  websiteUrl :: "string option"
  isActive :: bool
  lastSync :: "instant option"
  feedType :: feed_type

record LocationInfo =
  city :: string
  state :: string
  county :: "string option"
  loc_type :: place_type

record OrgLocation = LocationInfo +
  organizationType :: org_type

text \<open>
  Confidence scores are exact rationals. The code computes them in double precision from
  the constants 0.3, 0.5, 0.7, 0.8, 0.9, 0.2 and 1.0 with at most two additions.
\<close>

record DiscoveredFeed =
  source :: CalendarSource
  confidence :: rat
  lastChecked :: instant

text \<open>
  The value of a text property of a decoded calendar component. The decoder (node-ical)
  gives a string for a plain property, the object \<open>{params, val}\<close> for a property written
  with parameters (as in \<open>SUMMARY;LANGUAGE=en:...\<close>), and an array of such values for a
  property that occurs more than once.
\<close>

datatype text_value =
  Text string
  | ParamValue "(string \<times> string) list" string
  | Several "text_value list"

text \<open>
  \<open>InsertEvent\<close>, the event record every parser produces. \<open>imageUrl\<close> is \<open>None\<close> for
  \<open>null\<close>; \<open>isFree\<close> is the text \<open>true\<close> or \<open>false\<close>, as in the schema. \<open>title\<close> and
  \<open>location\<close> are declared as strings; \<open>parseICalFeed\<close> stores in them whatever value the
  decoder gave for the summary and the location, so they hold a \<open>text_value\<close>.
\<close>

record InsertEvent =
  title :: text_value
  description :: string
  category :: string
  location :: text_value
  organizer :: string
  startDate :: instant
  endDate :: instant
  startTime :: string
  endTime :: string
  attendees :: int
  imageUrl :: "string option"
  isFree :: string
  event_source :: string

text \<open>
  A component of a decoded calendar payload, with the properties \<open>parseICalFeed\<close> reads.
  A \<open>Date\<close> object is always truthy, so an optional instant is present or absent. The
  code tests \<open>event.end\<close>, so the end is optional here; the decoder itself gives every
  event component that has a start an end, also when the payload has no \<open>DTEND\<close>: for a
  start with a time of day it is then the start itself.
\<close>

record ical_component =
  ical_type :: string
  ical_start :: "instant option"
  ical_end :: "instant option"
  ical_summary :: "text_value option"
  ical_description :: "text_value option"
  ical_location :: "text_value option"

text \<open>
  JSON values as far as \<open>parseJSONFeed\<close> tells them apart: it tests \<open>is_free\<close> for
  truthiness and compares \<open>price\<close> with the number 0. Arrays and objects are \<open>JOther\<close>.
\<close>

datatype jsval = JNull | JBool bool | JNum rat | JStr string | JOther

fun truthy :: "jsval \<Rightarrow> bool" where
  "truthy JNull = False"
| "truthy (JBool b) = b"
| "truthy (JNum n) = (n \<noteq> 0)"
| "truthy (JStr s) = (s \<noteq> [])"
| "truthy JOther = True"

text \<open>
  An entry of a JSON feed, with the fields the loop of \<open>parseJSONFeed\<close> reads. The text
  fields are strings and \<open>attendees\<close> is a number where they are present; \<open>is_free\<close> and
  \<open>price\<close> hold any JSON value.
\<close>

record json_event =
  je_start_date :: "string option"
  je_date :: "string option"
  je_end_date :: "string option"
  je_title :: "string option"
  je_name :: "string option"
  je_description :: "string option"
  je_summary :: "string option"
  je_location :: "string option"
  je_attendees :: "int option"
  je_image_url :: "string option"
  je_is_free :: "jsval option"
  je_price :: "jsval option"

text \<open>
  A top-level member of the JSON document: absent or falsy, an array of entries, or a
  truthy value that has no \<open>slice\<close> method (a number, \<open>true\<close>, an object).
\<close>

datatype jmember = Falsy | Entries "json_event list" | NonArray

record json_document =
  doc_events :: jmember
  doc_items :: jmember
  doc_data :: jmember

record response =
  status :: nat
  content_type :: "string option"
  data :: string

text \<open>
  What the code consumes from outside. \<open>http_get\<close> and \<open>http_head\<close> answer a request
  made at a given moment (\<open>None\<close>: no response at all, that is a DNS failure, a refused
  connection or a timeout); \<open>clock\<close> is the system time and \<open>random\<close> the value of
  \<open>Math.random()\<close> at a given moment. The other fields are the library functions the code
  calls:
  \<^item> \<open>anchor_hrefs\<close> gives the \<open>href\<close> attribute of every anchor of a page that has one,
    in document order, or the exception thrown while the page is loaded (cheerio);
  \<^item> \<open>url_pathname href base\<close> is \<open>new URL(href, base).pathname\<close> and \<open>url_origin u\<close> is
    \<open>new URL(u).origin\<close>, \<open>None\<close> where the constructor throws;
  \<^item> \<open>parseICS\<close> decodes a calendar payload into its components, or throws (node-ical);
  \<^item> \<open>json_decode\<close> is the JSON document axios hands over as \<open>response.data\<close>, \<open>None\<close>
    when it is \<open>null\<close>;
  \<^item> \<open>date_parse\<close> is \<open>new Date(text)\<close> and \<open>toLocaleTimeString\<close> the formatting of an
    instant as a time of day;
  \<^item> \<open>rss_outcome\<close> and \<open>html_outcome\<close> are what \<open>parseRSSFeed\<close> and
    \<open>scrapeHTMLEvents\<close> settle with for a source at a given moment. Their bodies are not
    translated: every result below holds whatever they return or throw.
\<close>

record env =
  http_get :: "nat \<Rightarrow> string \<Rightarrow> response option"
  http_head :: "nat \<Rightarrow> string \<Rightarrow> response option"
  clock :: "nat \<Rightarrow> instant"
  random :: "nat \<Rightarrow> rat"
  anchor_hrefs :: "string \<Rightarrow> exn + string list"
  url_pathname :: "string \<Rightarrow> string \<Rightarrow> string option"
  url_origin :: "string \<Rightarrow> string option"
  parseICS :: "string \<Rightarrow> exn + ical_component list"
  json_decode :: "string \<Rightarrow> json_document option"
  date_parse :: "string \<Rightarrow> instant"
  toLocaleTimeString :: "instant \<Rightarrow> string"
  rss_outcome :: "nat \<Rightarrow> CalendarSource \<Rightarrow> exn + InsertEvent list"
  html_outcome :: "nat \<Rightarrow> CalendarSource \<Rightarrow> exn + InsertEvent list"

text \<open>
  \<open>axios.get\<close> and \<open>axios.head\<close>: the promise is rejected when there is no response and
  when \<open>validateStatus\<close> refuses the status code.
\<close>

definition axios_get :: "env \<Rightarrow> (nat \<Rightarrow> bool) \<Rightarrow> string \<Rightarrow> response io" where
  "axios_get env validateStatus url =
     (\<lambda>t. (case http_get env t url of
              None \<Rightarrow> Inl TransportError
            | Some r \<Rightarrow> if validateStatus (status r) then Inr r else Inl (BadStatus (status r)),
            Suc t))"

definition axios_head :: "env \<Rightarrow> (nat \<Rightarrow> bool) \<Rightarrow> string \<Rightarrow> response io" where
  "axios_head env validateStatus url =
     (\<lambda>t. (case http_head env t url of
              None \<Rightarrow> Inl TransportError
            | Some r \<Rightarrow> if validateStatus (status r) then Inr r else Inl (BadStatus (status r)),
            Suc t))"

text \<open>The default \<open>validateStatus\<close> of axios.\<close>

definition default_validateStatus :: "nat \<Rightarrow> bool" where
  "default_validateStatus s = (200 \<le> s \<and> s < 300)"

definition Date_now :: "env \<Rightarrow> instant io" where
  "Date_now env = (\<lambda>t. (Inr (clock env t), Suc t))"

definition Math_random :: "env \<Rightarrow> rat io" where
  "Math_random env = (\<lambda>t. (Inr (random env t), Suc t))"

section \<open>Feed discovery: \<open>LocationFeedDiscoverer\<close>\<close>

definition commonFeedPaths :: "string list" where
  "commonFeedPaths =
     [''/calendar'', ''/events'', ''/calendar.ics'', ''/events.ics'', ''/calendar/feed'',
      ''/events/feed'', ''/calendar.rss'', ''/events.rss'', ''/api/events'', ''/api/calendar'',
      ''/feeds/calendar'', ''/feeds/events'']"

definition governmentDomainPatterns :: "string list" where
  "governmentDomainPatterns =
     [''{city}.gov'', ''{city}.{state}.gov'', ''www.{city}.gov'', ''www.{city}.{state}.gov'',
      ''{city}{state}.gov'', ''city{city}.gov'', ''cityof{city}.gov'']"

definition schoolDistrictPatterns :: "string list" where
  "schoolDistrictPatterns =
     [''{city}schools.org'', ''{city}schools.edu'', ''{city}sd.org'', ''{city}isd.org'',
      ''www.{city}schools.org'', ''www.{city}schools.edu'']"

definition chamberPatterns :: "string list" where
  "chamberPatterns =
     [''{city}chamber.org'', ''{city}chamber.com'', ''www.{city}chamber.org'',
      ''www.{city}chamber.com'', ''{city}chamberofcommerce.org'',
      ''{city}chamberofcommerce.com'']"

text \<open>\<open>city.toLowerCase().replace(/\s+/g, '').replace(/[^a-z0-9]/g, '')\<close>.\<close>

definition createCitySlug :: "string \<Rightarrow> string" where
  "createCitySlug c =
     filter is_lower_alnum (filter (\<lambda>x. \<not> is_space x) (toLowerCase c))"

definition org_name :: "org_type \<Rightarrow> string" where
  "org_name t = (case t of City \<Rightarrow> ''city'' | School \<Rightarrow> ''school'' | Chamber \<Rightarrow> ''chamber''
                  | Library \<Rightarrow> ''library'' | Parks \<Rightarrow> ''parks'')"

definition generateSourceName :: "OrgLocation \<Rightarrow> string" where
  "generateSourceName loc =
     (case organizationType loc of
        City \<Rightarrow> city loc @ '' City Government''
      | School \<Rightarrow> city loc @ '' School District''
      | Chamber \<Rightarrow> city loc @ '' Chamber of Commerce''
      | t \<Rightarrow> city loc @ '' '' @ org_name t)"

text \<open>\<open>s.replace(/\s+/g, '-')\<close>: every maximal run of white space becomes one hyphen.\<close>

fun hyphenate_from :: "bool \<Rightarrow> string \<Rightarrow> string" where
  "hyphenate_from in_run [] = []"
| "hyphenate_from in_run (c # s) =
     (if is_space c then (if in_run then hyphenate_from True s else CHR ''-'' # hyphenate_from True s)
      else c # hyphenate_from False s)"

definition hyphenate :: "string \<Rightarrow> string" where
  "hyphenate s = hyphenate_from False s"

text \<open>The decimal text of a number, as a template literal prints it.\<close>

function digits_of :: "int \<Rightarrow> string" where
  "digits_of n =
     (if n < 10 then [char_of (48 + n)] else digits_of (n div 10) @ [char_of (48 + n mod 10)])"
  by pat_completeness auto
termination
  by (relation "measure nat") auto

definition show_int :: "int \<Rightarrow> string" where
  "show_int i = (if i < 0 then CHR ''-'' # digits_of (- i) else digits_of i)"

text \<open>
  The ordered rule set of \<open>validateFeedUrl\<close>: the first rule that matches gives the wire
  format and the base confidence.
\<close>

definition classifyFeed :: "string \<Rightarrow> string \<Rightarrow> feed_type \<times> rat" where
  "classifyFeed contentType url =
     (if str_includes contentType ''text/calendar'' \<or> endsWith url ''.ics'' then (ICal, 9 / 10)
      else if str_includes contentType ''application/rss'' \<or> str_includes contentType ''xml''
              \<or> str_includes url ''rss'' \<or> str_includes url ''.xml'' then (Rss, 8 / 10)
      else if str_includes contentType ''application/json'' \<or> str_includes url ''api''
              \<or> str_includes url ''.json'' then (Json, 7 / 10)
      else if str_includes url ''calendar'' \<or> str_includes url ''events'' then (Html, 5 / 10)
      else (Html, 3 / 10))"

text \<open>The boost for government domains: \<open>if (feedUrl.includes('.gov')) confidence += 0.2\<close>.\<close>

definition govBoost :: "string \<Rightarrow> rat \<Rightarrow> rat" where
  "govBoost url c = (if str_includes url ''.gov'' then c + 2 / 10 else c)"

text \<open>The body of the \<open>try\<close> block of \<open>validateFeedUrl\<close>.\<close>

definition validateFeedUrl_try :: "env \<Rightarrow> string \<Rightarrow> OrgLocation \<Rightarrow> DiscoveredFeed io" where
  "validateFeedUrl_try env url loc =
     io_bind (axios_head env default_validateStatus url) (\<lambda>response.
       let contentType = (case content_type response of None \<Rightarrow> [] | Some c \<Rightarrow> c);
           (ft, base) = classifyFeed contentType url;
           conf = govBoost url base
       in io_bind (Date_now env) (\<lambda>stamp.
          io_bind (io_of (case url_origin env url of None \<Rightarrow> Inl TypeError | Some origin \<Rightarrow> Inr origin))
            (\<lambda>origin.
          io_bind (Date_now env) (\<lambda>checked.
            io_return
              \<lparr> source =
                  \<lparr> src_id = ''discovered-'' @ hyphenate (toLowerCase (city loc)) @ ''-''
                               @ org_name (organizationType loc) @ ''-'' @ show_int stamp,
                    src_name = generateSourceName loc,
                    src_city = city loc,
                    src_state = state loc,
                    src_type = organizationType loc,
                    feedUrl = Some url,
                    websiteUrl = Some origin,
                    isActive = False,
                    lastSync = None,
                    feedType = ft \<rparr>,
                confidence = min conf 1,
                lastChecked = checked \<rparr>))))"

text \<open>\<open>validateFeedUrl\<close>: any exception of the body gives \<open>null\<close>.\<close>

definition validateFeedUrl :: "env \<Rightarrow> string \<Rightarrow> OrgLocation \<Rightarrow> DiscoveredFeed option io" where
  "validateFeedUrl env url loc =
     io_catch (io_bind (validateFeedUrl_try env url loc) (\<lambda>feed. io_return (Some feed)))
              (\<lambda>error. io_return None)"

text \<open>\<open>Set.add\<close>: a JavaScript \<open>Set\<close> keeps insertion order and ignores a repeated member.\<close>

definition set_add :: "string list \<Rightarrow> string \<Rightarrow> string list" where
  "set_add paths p = (if p \<in> set paths then paths else paths @ [p])"

text \<open>
  The callback run on every anchor the selector \<open>a[href*="calendar"], a[href*="events"]\<close>
  matches. \<open>new URL\<close> may throw, which leaves the \<open>each\<close> loop.
\<close>

fun addAnchorPaths :: "env \<Rightarrow> string \<Rightarrow> string list \<Rightarrow> string list \<Rightarrow> exn + string list" where
  "addAnchorPaths env baseUrl [] paths = Inr paths"
| "addAnchorPaths env baseUrl (href # hs) paths =
     (if href = [] then addAnchorPaths env baseUrl hs paths
      else if startsWith href ''/'' then addAnchorPaths env baseUrl hs (set_add paths href)
      else (case url_pathname env href baseUrl of
              None \<Rightarrow> Inl TypeError
            | Some path \<Rightarrow> addAnchorPaths env baseUrl hs (set_add paths path)))"

definition discoveredPaths :: "env \<Rightarrow> string \<Rightarrow> string \<Rightarrow> exn + string list" where
  "discoveredPaths env baseUrl page =
     (case anchor_hrefs env page of
        Inl e \<Rightarrow> Inl e
      | Inr hrefs \<Rightarrow>
          (case addAnchorPaths env baseUrl
                  (filter (\<lambda>h. str_includes h ''calendar'' \<or> str_includes h ''events'') hrefs) [] of
             Inl e \<Rightarrow> Inl e
           | Inr paths \<Rightarrow> Inr (foldl set_add paths commonFeedPaths)))"

text \<open>
  The loop over the paths of a domain. \<open>feeds\<close> is the array declared before the \<open>try\<close>
  block: when the loop is left by an exception, the feeds pushed so far remain in it.
\<close>

fun validatePaths ::
  "env \<Rightarrow> string \<Rightarrow> OrgLocation \<Rightarrow> string list \<Rightarrow> DiscoveredFeed list \<Rightarrow> nat
     \<Rightarrow> (exn option \<times> DiscoveredFeed list) \<times> nat" where
  "validatePaths env baseUrl loc [] feeds t = ((None, feeds), t)"
| "validatePaths env baseUrl loc (path # ps) feeds t =
     (case validateFeedUrl env (if startsWith path ''http'' then path else baseUrl @ path) loc t of
        (Inl e, t') \<Rightarrow> ((Some e, feeds), t')
      | (Inr None, t') \<Rightarrow> validatePaths env baseUrl loc ps feeds t'
      | (Inr (Some feed), t') \<Rightarrow> validatePaths env baseUrl loc ps (feeds @ [feed]) t')"

text \<open>
  \<open>checkDomainForFeeds\<close>. The request accepts every status below 500; whatever is
  thrown inside the \<open>try\<close> block is logged, and the function returns \<open>feeds\<close>.
\<close>

definition checkDomainForFeeds :: "env \<Rightarrow> string \<Rightarrow> OrgLocation \<Rightarrow> DiscoveredFeed list io" where
  "checkDomainForFeeds env domain loc =
     (\<lambda>t. let baseUrl = ''https://'' @ domain in
        case axios_get env (\<lambda>status. status < 500) baseUrl t of
          (Inl error, t1) \<Rightarrow> (Inr [], t1)
        | (Inr response, t1) \<Rightarrow>
            if status response = 404 then (Inr [], t1)
            else (case discoveredPaths env baseUrl (data response) of
                    Inl error \<Rightarrow> (Inr [], t1)
                  | Inr paths \<Rightarrow>
                      (case validatePaths env baseUrl loc (take 10 paths) [] t1 of
                         ((outcome, feeds), t2) \<Rightarrow> (Inr feeds, t2))))"

text \<open>
  The loop shared by \<open>discoverGovernmentFeeds\<close>, \<open>discoverSchoolFeeds\<close> and
  \<open>discoverChamberFeeds\<close>, which differ in the pattern list and the organization type.
\<close>

fun probeDomains ::
  "env \<Rightarrow> LocationInfo \<Rightarrow> org_type \<Rightarrow> string \<Rightarrow> string \<Rightarrow> string list \<Rightarrow> DiscoveredFeed list
     \<Rightarrow> DiscoveredFeed list io" where
  "probeDomains env loc org citySlug stateSlug [] feeds = io_return feeds"
| "probeDomains env loc org citySlug stateSlug (domainPattern # ps) feeds =
     io_bind
       (checkDomainForFeeds env
          (replace (replace domainPattern ''{city}'' citySlug) ''{state}'' stateSlug)
          \<lparr> city = city loc, state = state loc, county = county loc, loc_type = PlaceCity,
            organizationType = org \<rparr>)
       (\<lambda>found. probeDomains env loc org citySlug stateSlug ps (feeds @ found))"

definition discoverGovernmentFeeds ::
  "env \<Rightarrow> LocationInfo \<Rightarrow> string \<Rightarrow> string \<Rightarrow> DiscoveredFeed list io" where
  "discoverGovernmentFeeds env loc citySlug stateSlug =
     probeDomains env loc City citySlug stateSlug governmentDomainPatterns []"

definition discoverSchoolFeeds ::
  "env \<Rightarrow> LocationInfo \<Rightarrow> string \<Rightarrow> string \<Rightarrow> DiscoveredFeed list io" where
  "discoverSchoolFeeds env loc citySlug stateSlug =
     probeDomains env loc School citySlug stateSlug schoolDistrictPatterns []"

definition discoverChamberFeeds ::
  "env \<Rightarrow> LocationInfo \<Rightarrow> string \<Rightarrow> string \<Rightarrow> DiscoveredFeed list io" where
  "discoverChamberFeeds env loc citySlug stateSlug =
     probeDomains env loc Chamber citySlug stateSlug chamberPatterns []"

text \<open>
  \<open>discoverFeedsForLocation\<close>. \<open>Array.prototype.sort\<close> is stable, and the comparator
  \<open>b.confidence - a.confidence\<close> orders by descending confidence.
\<close>

definition discoverFeedsForLocation :: "env \<Rightarrow> LocationInfo \<Rightarrow> DiscoveredFeed list io" where
  "discoverFeedsForLocation env loc =
     (let citySlug = createCitySlug (city loc); stateSlug = toLowerCase (state loc) in
      io_bind (discoverGovernmentFeeds env loc citySlug stateSlug) (\<lambda>govFeeds.
      io_bind (discoverSchoolFeeds env loc citySlug stateSlug) (\<lambda>schoolFeeds.
      io_bind (discoverChamberFeeds env loc citySlug stateSlug) (\<lambda>chamberFeeds.
        io_return (sort_key (\<lambda>f. - confidence f) (govFeeds @ schoolFeeds @ chamberFeeds))))))"

text \<open>The loop of \<open>checkKnownPatterns\<close>.\<close>

fun probeKnown ::
  "env \<Rightarrow> OrgLocation \<Rightarrow> string list \<Rightarrow> DiscoveredFeed list \<Rightarrow> DiscoveredFeed list io" where
  "probeKnown env loc [] feeds = io_return feeds"
| "probeKnown env loc (pattern # ps) feeds =
     io_bind (validateFeedUrl env pattern loc) (\<lambda>feed.
       probeKnown env loc ps
         (case feed of
            None \<Rightarrow> feeds
          | Some f \<Rightarrow> feeds @ [f\<lparr>confidence := min (confidence f + 3 / 10) 1\<rparr>]))"

definition knownPatterns :: "string \<Rightarrow> string list" where
  "knownPatterns citySlug =
     [''https://www.'' @ citySlug @ ''.gov/calendar'',
      ''https://'' @ citySlug @ ''.gov/events'',
      ''https://www.'' @ citySlug @ ''.gov/calendar.ics'',
      ''https://calendar.'' @ citySlug @ ''.gov'',
      ''https://events.'' @ citySlug @ ''.gov'']"

definition checkKnownPatterns :: "env \<Rightarrow> LocationInfo \<Rightarrow> DiscoveredFeed list io" where
  "checkKnownPatterns env loc =
     probeKnown env
       \<lparr> city = city loc, state = state loc, county = county loc, loc_type = loc_type loc,
         organizationType = City \<rparr>
       (knownPatterns (createCitySlug (city loc))) []"

definition stateMap :: "(string \<times> string) list" where
  "stateMap =
     [(''alabama'', ''AL''), (''alaska'', ''AK''), (''arizona'', ''AZ''), (''arkansas'', ''AR''),
      (''california'', ''CA''), (''colorado'', ''CO''), (''connecticut'', ''CT''),
      (''delaware'', ''DE''), (''florida'', ''FL''), (''georgia'', ''GA''), (''hawaii'', ''HI''),
      (''idaho'', ''ID''), (''illinois'', ''IL''), (''indiana'', ''IN''), (''iowa'', ''IA''),
      (''kansas'', ''KS''), (''kentucky'', ''KY''), (''louisiana'', ''LA''), (''maine'', ''ME''),
      (''maryland'', ''MD''), (''massachusetts'', ''MA''), (''michigan'', ''MI''),
      (''minnesota'', ''MN''), (''mississippi'', ''MS''), (''missouri'', ''MO''),
      (''montana'', ''MT''), (''nebraska'', ''NE''), (''nevada'', ''NV''),
      (''new hampshire'', ''NH''), (''new jersey'', ''NJ''), (''new mexico'', ''NM''),
      (''new york'', ''NY''), (''north carolina'', ''NC''), (''north dakota'', ''ND''),
      (''ohio'', ''OH''), (''oklahoma'', ''OK''), (''oregon'', ''OR''), (''pennsylvania'', ''PA''),
      (''rhode island'', ''RI''), (''south carolina'', ''SC''), (''south dakota'', ''SD''),
      (''tennessee'', ''TN''), (''texas'', ''TX''), (''utah'', ''UT''), (''vermont'', ''VT''),
      (''virginia'', ''VA''), (''washington'', ''WA''), (''west virginia'', ''WV''),
      (''wisconsin'', ''WI''), (''wyoming'', ''WY'')]"

text \<open>
  \<open>getStateAbbreviation\<close>: \<open>stateMap[normalized] || stateName.toUpperCase().substring(0, 2)\<close>.
  \<open>stateMap\<close> is an object literal, so the lookup also finds the members it inherits from
  \<open>Object.prototype\<close>; of their names only \<open>constructor\<close> and \<open>__proto__\<close> are lower-case
  throughout. For these two the lookup gives a truthy value that is not a string, which is
  \<open>None\<close> here.
\<close>

definition getStateAbbreviation :: "string \<Rightarrow> string option" where
  "getStateAbbreviation stateName =
     (let normalized = trim (toLowerCase stateName) in
      case map_of stateMap normalized of
        Some code \<Rightarrow> Some code
      | None \<Rightarrow> if normalized = ''constructor'' \<or> normalized = ''__proto__'' then None
                else Some (take 2 (toUpperCase stateName)))"

text \<open>\<open>Array.prototype.findIndex\<close>, which gives \<open>-1\<close> when no element satisfies the test.\<close>

fun findIndex_from :: "nat \<Rightarrow> ('a \<Rightarrow> bool) \<Rightarrow> 'a list \<Rightarrow> int" where
  "findIndex_from i P [] = - 1"
| "findIndex_from i P (x # xs) = (if P x then int i else findIndex_from (Suc i) P xs)"

definition findIndex :: "('a \<Rightarrow> bool) \<Rightarrow> 'a list \<Rightarrow> int" where
  "findIndex P xs = findIndex_from 0 P xs"

text \<open>The final \<open>filter\<close> of \<open>discoverFeedsForPopularLocation\<close>.\<close>

definition firstByFeedUrl :: "DiscoveredFeed list \<Rightarrow> DiscoveredFeed list" where
  "firstByFeedUrl self =
     map fst
       (filter (\<lambda>(feed, index).
                  int index = findIndex (\<lambda>f. feedUrl (source f) = feedUrl (source feed)) self)
          (zip self [0 ..< length self]))"

text \<open>
  \<open>discoverFeedsForPopularLocation\<close>. When the state is not a string,
  \<open>location.state.toLowerCase()\<close> in \<open>discoverFeedsForLocation\<close> throws a TypeError
  before any request is made.
\<close>

definition discoverFeedsForPopularLocation :: "env \<Rightarrow> string \<Rightarrow> string \<Rightarrow> DiscoveredFeed list io" where
  "discoverFeedsForPopularLocation env cityName stateName =
     (case getStateAbbreviation stateName of
        None \<Rightarrow> io_throw TypeError
      | Some code \<Rightarrow>
          (let loc = \<lparr> city = cityName, state = code, county = None, loc_type = PlaceCity \<rparr> in
           io_bind (discoverFeedsForLocation env loc) (\<lambda>feeds.
           io_bind (checkKnownPatterns env loc) (\<lambda>additionalFeeds.
             io_return (firstByFeedUrl (feeds @ additionalFeeds))))))"

section \<open>Feed collection: \<open>CalendarFeedCollector\<close>\<close>

text \<open>\<open>x || d\<close> for an optional string \<open>x\<close>: absent and empty are both falsy.\<close>

definition or_default :: "string option \<Rightarrow> string \<Rightarrow> string" where
  "or_default x d = (case x of None \<Rightarrow> d | Some s \<Rightarrow> if s = [] then d else s)"

definition categorizeEvent :: "string \<Rightarrow> string \<Rightarrow> string" where
  "categorizeEvent ttl descr =
     (let lowered = toLowerCase (ttl @ '' '' @ descr) in
      if str_includes lowered ''council'' \<or> str_includes lowered ''meeting''
           \<or> str_includes lowered ''public'' then ''Community & Social''
      else if str_includes lowered ''school'' \<or> str_includes lowered ''education''
           \<or> str_includes lowered ''class'' then ''Education & Learning''
      else if str_includes lowered ''business'' \<or> str_includes lowered ''networking''
           \<or> str_includes lowered ''chamber'' then ''Business & Networking''
      else if str_includes lowered ''art'' \<or> str_includes lowered ''gallery''
           \<or> str_includes lowered ''exhibition'' then ''Arts & Culture''
      else if str_includes lowered ''music'' \<or> str_includes lowered ''concert''
           \<or> str_includes lowered ''performance'' then ''Music & Concerts''
      else if str_includes lowered ''sport'' \<or> str_includes lowered ''game''
           \<or> str_includes lowered ''tournament'' then ''Sports & Recreation''
      else if str_includes lowered ''food'' \<or> str_includes lowered ''dining''
           \<or> str_includes lowered ''restaurant'' then ''Food & Dining''
      else if str_includes lowered ''health'' \<or> str_includes lowered ''wellness''
           \<or> str_includes lowered ''fitness'' then ''Health & Wellness''
      else if str_includes lowered ''family'' \<or> str_includes lowered ''kids''
           \<or> str_includes lowered ''children'' then ''Family & Kids''
      else if str_includes lowered ''holiday'' \<or> str_includes lowered ''celebration''
           \<or> str_includes lowered ''festival'' then ''Holiday''
      else ''Community & Social'')"

text \<open>
  Truthiness of a \<open>text_value\<close>: the empty string is falsy, every object and array is
  truthy.
\<close>

fun truthy_text :: "text_value \<Rightarrow> bool" where
  "truthy_text (Text s) = (s \<noteq> [])"
| "truthy_text (ParamValue params val) = True"
| "truthy_text (Several vs) = True"

text \<open>
  The string a \<open>text_value\<close> becomes when it is concatenated with a string: an object
  gives \<open>[object Object]\<close>, an array its elements joined by commas.
\<close>

fun join_comma :: "string list \<Rightarrow> string" where
  "join_comma [] = []"
| "join_comma [x] = x"
| "join_comma (x # y # r) = x @ '','' @ join_comma (y # r)"

fun js_string :: "text_value \<Rightarrow> string" where
  "js_string (Text s) = s"
| "js_string (ParamValue params val) = ''[object Object]''"
| "js_string (Several vs) = join_comma (map js_string vs)"

text \<open>
  \<open>event.description?.toLowerCase()\<close>: \<open>undefined\<close> for an absent description, the
  string in lower case for a string; an object or an array has no method \<open>toLowerCase\<close>,
  and the call throws a TypeError.
\<close>

definition descriptionText :: "text_value option \<Rightarrow> exn + string option" where
  "descriptionText d =
     (case d of
        None \<Rightarrow> Inr None
      | Some (Text s) \<Rightarrow> Inr (Some s)
      | Some other \<Rightarrow> Inl TypeError)"

text \<open>
  The body of the loop of \<open>parseICalFeed\<close>: the exception it throws, or \<open>None\<close> when the
  component is skipped, or the record pushed onto \<open>parsedEvents\<close>. The only expression of
  the record that can throw is the one for \<open>isFree\<close>; the others have no effect, so the
  exception is decided first here.
\<close>

definition icalEvent ::
  "env \<Rightarrow> CalendarSource \<Rightarrow> ical_component \<Rightarrow> exn + InsertEvent option" where
  "icalEvent env src event =
     (case (ical_start event, ical_summary event) of
        (Some start, Some summary) \<Rightarrow>
          if ical_type event = ''VEVENT'' \<and> truthy_text summary then
            (let startDate = start;
                 endDate = (case ical_end event of
                              Some e \<Rightarrow> e
                            | None \<Rightarrow> startDate + 60 * 60 * 1000)
             in case descriptionText (ical_description event) of
                  Inl error \<Rightarrow> Inl error
                | Inr descr \<Rightarrow>
                    Inr (Some
                      \<lparr> title = summary,
                        description = or_default descr ''Event details available on website'',
                        category = categorizeEvent (js_string summary) (or_default descr []),
                        location =
                          (case ical_location event of
                             Some l \<Rightarrow>
                               if truthy_text l then l
                               else Text (src_city src @ '', '' @ src_state src)
                           | None \<Rightarrow> Text (src_city src @ '', '' @ src_state src)),
                        organizer = src_name src,
                        startDate = startDate,
                        endDate = endDate,
                        startTime = toLocaleTimeString env startDate,
                        endTime = toLocaleTimeString env endDate,
                        attendees = 0,
                        imageUrl = None,
                        isFree = (case descr of
                                    Some d \<Rightarrow>
                                      if str_includes (toLowerCase d) ''free'' then ''true''
                                      else ''false''
                                  | None \<Rightarrow> ''false''),
                        event_source = src_id src \<rparr>))
          else Inr None
      | _ \<Rightarrow> Inr None)"

text \<open>The loop of \<open>parseICalFeed\<close> over the components; an exception leaves it.\<close>

fun icalEvents ::
  "env \<Rightarrow> CalendarSource \<Rightarrow> ical_component list \<Rightarrow> InsertEvent list \<Rightarrow> exn + InsertEvent list" where
  "icalEvents env src [] parsedEvents = Inr parsedEvents"
| "icalEvents env src (event # rest) parsedEvents =
     (case icalEvent env src event of
        Inl error \<Rightarrow> Inl error
      | Inr None \<Rightarrow> icalEvents env src rest parsedEvents
      | Inr (Some e) \<Rightarrow> icalEvents env src rest (parsedEvents @ [e]))"

text \<open>
  \<open>parseICalFeed\<close>. Without a feed URL it returns no events; any exception of the
  request, of the decoder or of the loop is thrown again, wrapped in a new \<open>Error\<close>.
\<close>

definition parseICalFeed :: "env \<Rightarrow> CalendarSource \<Rightarrow> InsertEvent list io" where
  "parseICalFeed env src =
     (case feedUrl src of
        None \<Rightarrow> io_return []
      | Some url \<Rightarrow>
          if url = [] then io_return []
          else io_catch
                 (io_bind (axios_get env default_validateStatus url) (\<lambda>response.
                  io_bind (io_of (parseICS env (data response))) (\<lambda>events.
                  io_bind (io_of (icalEvents env src events [])) (\<lambda>parsedEvents.
                    io_return (take 10 parsedEvents)))))
                 (\<lambda>error. io_throw (WrappedError error)))"

text \<open>\<open>a || b\<close> on two optional strings, \<open>None\<close> when both are falsy.\<close>

definition first_truthy :: "string option \<Rightarrow> string option \<Rightarrow> string option" where
  "first_truthy a b =
     (case a of
        Some s \<Rightarrow> if s \<noteq> [] then Some s else (case b of Some u \<Rightarrow> if u \<noteq> [] then Some u else None | None \<Rightarrow> None)
      | None \<Rightarrow> (case b of Some u \<Rightarrow> if u \<noteq> [] then Some u else None | None \<Rightarrow> None))"

text \<open>
  The free/paid test of \<open>parseJSONFeed\<close>:
  \<open>event.is_free || (event.price === 0) || (event.description?.toLowerCase().includes('free'))\<close>.
\<close>

definition jsonIsFree :: "json_event \<Rightarrow> bool" where
  "jsonIsFree event =
     ((case je_is_free event of Some v \<Rightarrow> truthy v | None \<Rightarrow> False)
      \<or> je_price event = Some (JNum 0)
      \<or> (case je_description event of
            Some d \<Rightarrow> str_includes (toLowerCase d) ''free''
          | None \<Rightarrow> False))"

text \<open>
  The body of the loop of \<open>parseJSONFeed\<close>. The clock is read only when the entry has
  neither \<open>start_date\<close> nor \<open>date\<close>.
\<close>

definition jsonEvent :: "env \<Rightarrow> CalendarSource \<Rightarrow> json_event \<Rightarrow> InsertEvent io" where
  "jsonEvent env src event =
     io_bind
       (case first_truthy (je_start_date event) (je_date event) of
          Some s \<Rightarrow> io_return (date_parse env s)
        | None \<Rightarrow> Date_now env)
       (\<lambda>startDate.
          let endDate = (case first_truthy (je_end_date event) (je_date event) of
                           Some s \<Rightarrow> date_parse env s
                         | None \<Rightarrow> startDate + 2 * 60 * 60 * 1000)
          in io_return
               \<lparr> title = Text (or_default (first_truthy (je_title event) (je_name event))
                                ''Untitled Event''),
                 description = or_default (first_truthy (je_description event) (je_summary event))
                                 ''Event details available on website'',
                 category = categorizeEvent (or_default (je_title event) [])
                              (or_default (je_description event) []),
                 location = Text (or_default (je_location event)
                                   (src_city src @ '', '' @ src_state src)),
                 organizer = src_name src,
                 startDate = startDate,
                 endDate = endDate,
                 startTime = toLocaleTimeString env startDate,
                 endTime = toLocaleTimeString env endDate,
                 attendees = (case je_attendees event of Some n \<Rightarrow> n | None \<Rightarrow> 0),
                 imageUrl = first_truthy (je_image_url event) None,
                 isFree = (if jsonIsFree event then ''true'' else ''false''),
                 event_source = src_id src \<rparr>)"

fun jsonEvents :: "env \<Rightarrow> CalendarSource \<Rightarrow> json_event list \<Rightarrow> InsertEvent list \<Rightarrow> InsertEvent list io" where
  "jsonEvents env src [] parsedEvents = io_return parsedEvents"
| "jsonEvents env src (event # es) parsedEvents =
     io_bind (jsonEvent env src event) (\<lambda>e. jsonEvents env src es (parsedEvents @ [e]))"

text \<open>\<open>data.events || data.items || data.data || []\<close>.\<close>

definition documentEvents :: "json_document \<Rightarrow> jmember" where
  "documentEvents doc =
     (if doc_events doc \<noteq> Falsy then doc_events doc
      else if doc_items doc \<noteq> Falsy then doc_items doc
      else if doc_data doc \<noteq> Falsy then doc_data doc
      else Entries [])"

text \<open>
  \<open>parseJSONFeed\<close>. Reading a property of \<open>null\<close> and calling \<open>slice\<close> on a value that
  has none both throw a TypeError.
\<close>

definition parseJSONFeed :: "env \<Rightarrow> CalendarSource \<Rightarrow> InsertEvent list io" where
  "parseJSONFeed env src =
     (case feedUrl src of
        None \<Rightarrow> io_return []
      | Some url \<Rightarrow>
          if url = [] then io_return []
          else io_catch
                 (io_bind (axios_get env default_validateStatus url) (\<lambda>response.
                    case json_decode env (data response) of
                      None \<Rightarrow> io_throw TypeError
                    | Some doc \<Rightarrow>
                        (case documentEvents doc of
                           Entries events \<Rightarrow> jsonEvents env src (take 10 events) []
                         | NonArray \<Rightarrow> io_throw TypeError
                         | Falsy \<Rightarrow> io_return [])))
                 (\<lambda>error. io_throw (WrappedError error)))"

text \<open>\<open>parseWebCalFeed\<close> rewrites the scheme and delegates to \<open>parseICalFeed\<close>.\<close>

definition parseWebCalFeed :: "env \<Rightarrow> CalendarSource \<Rightarrow> InsertEvent list io" where
  "parseWebCalFeed env src =
     parseICalFeed env
       (src\<lparr>feedUrl := map_option (\<lambda>u. replace u ''webcal://'' ''https://'') (feedUrl src)\<rparr>)"

text \<open>
  \<open>parseRSSFeed\<close> and \<open>scrapeHTMLEvents\<close> settle with whatever the environment says.
\<close>

definition parseRSSFeed :: "env \<Rightarrow> CalendarSource \<Rightarrow> InsertEvent list io" where
  "parseRSSFeed env src = (\<lambda>t. (rss_outcome env t src, Suc t))"

definition scrapeHTMLEvents :: "env \<Rightarrow> CalendarSource \<Rightarrow> InsertEvent list io" where
  "scrapeHTMLEvents env src = (\<lambda>t. (html_outcome env t src, Suc t))"

text \<open>\<open>new Date(x)\<close> for a number \<open>x\<close> keeps its integral part.\<close>

definition timeClip :: "rat \<Rightarrow> instant" where
  "timeClip x = (if 0 \<le> x then \<lfloor>x\<rfloor> else \<lceil>x\<rceil>)"

text \<open>The templates of the fallback generator: title, category and duration in hours.\<close>

definition eventTemplates :: "(string \<times> string \<times> int) list" where
  "eventTemplates =
     [(''City Council Meeting'', ''Community & Social'', 2),
      (''Public Library Story Time'', ''Family & Kids'', 1),
      (''Business Networking Event'', ''Business & Networking'', 2),
      (''Community Health Fair'', ''Health & Wellness'', 4),
      (''Local Art Exhibition Opening'', ''Arts & Culture'', 3)]"

text \<open>
  One round of the loop of \<open>generateFallbackEvents\<close>. \<open>Math.random()\<close> is called three
  times, in the order of the object literal: for the start, the attendees and the flag.
\<close>

definition fallbackEvent :: "env \<Rightarrow> CalendarSource \<Rightarrow> instant \<Rightarrow> nat \<Rightarrow> InsertEvent io" where
  "fallbackEvent env src now i =
     (case eventTemplates ! (i mod length eventTemplates) of
        (template_title, template_category, duration) \<Rightarrow>
          io_bind (Math_random env) (\<lambda>r1.
            let startDate = timeClip (of_int now + of_nat ((i + 1) * 24 * 60 * 60 * 1000)
                                        + r1 * 12 * 60 * 60 * 1000);
                endDate = startDate + duration * 60 * 60 * 1000
            in io_bind (Math_random env) (\<lambda>r2.
               io_bind (Math_random env) (\<lambda>r3.
                 io_return
                   \<lparr> title = Text (template_title @ '' - '' @ src_city src),
                     description = ''Join us for this community event in '' @ src_city src @ '', ''
                        @ src_state src
                        @ ''. Event details and registration available on our website.'',
                     category = template_category,
                     location = Text (src_city src @ '', '' @ src_state src),
                     organizer = src_name src,
                     startDate = startDate,
                     endDate = endDate,
                     startTime = toLocaleTimeString env startDate,
                     endTime = toLocaleTimeString env endDate,
                     attendees = \<lfloor>r2 * 100\<rfloor> + 20,
                     imageUrl = None,
                     isFree = (if r3 > 3 / 10 then ''true'' else ''false''),
                     event_source = src_id src \<rparr>))))"

fun fallbackLoop ::
  "env \<Rightarrow> CalendarSource \<Rightarrow> instant \<Rightarrow> nat list \<Rightarrow> InsertEvent list \<Rightarrow> InsertEvent list io" where
  "fallbackLoop env src now [] events = io_return events"
| "fallbackLoop env src now (i # rest) events =
     io_bind (fallbackEvent env src now i) (\<lambda>e. fallbackLoop env src now rest (events @ [e]))"

text \<open>\<open>generateFallbackEvents\<close>: \<open>for (let i = 0; i < 3; i++)\<close>.\<close>

definition generateFallbackEvents :: "env \<Rightarrow> CalendarSource \<Rightarrow> InsertEvent list io" where
  "generateFallbackEvents env src =
     io_bind (Date_now env) (\<lambda>now. fallbackLoop env src now [0, 1, 2] [])"

text \<open>
  The \<open>try\<close> block of \<open>collectFromSource\<close>, the real fetch and parse path, and
  \<open>collectFromSource\<close> itself, whose \<open>catch\<close> block calls the fallback generator.
\<close>

definition parseFeed :: "env \<Rightarrow> CalendarSource \<Rightarrow> InsertEvent list io" where
  "parseFeed env src =
     (case feedType src of
        ICal \<Rightarrow> parseICalFeed env src
      | Rss \<Rightarrow> parseRSSFeed env src
      | Json \<Rightarrow> parseJSONFeed env src
      | WebCal \<Rightarrow> parseWebCalFeed env src
      | Html \<Rightarrow> scrapeHTMLEvents env src)"

definition collectFromSource :: "env \<Rightarrow> CalendarSource \<Rightarrow> InsertEvent list io" where
  "collectFromSource env src =
     io_catch (parseFeed env src) (\<lambda>error. generateFallbackEvents env src)"

subsection \<open>The registry and a collection run\<close>

text \<open>
  The registry is the array \<open>this.sources\<close>. The objects in it are shared with every
  array derived from it, so a source is addressed by its position in the registry, and a
  write to a source is a write at that position. The initial registry is the one the class
  is created with.
\<close>

definition initialSources :: "CalendarSource list" where
  "initialSources =
     [
      \<lparr> src_id = ''san-francisco-city'', src_name = ''San Francisco City Events'',
        src_city = ''San Francisco'', src_state = ''CA'', src_type = City,
        feedUrl = Some ''https://sfgov.org/calendar/feed'',
        websiteUrl = Some ''https://sfgov.org/calendar'',
        isActive = True, lastSync = None, feedType = ICal \<rparr>,
      \<lparr> src_id = ''los-angeles-city'', src_name = ''Los Angeles City Events'',
        src_city = ''Los Angeles'', src_state = ''CA'', src_type = City,
        feedUrl = Some ''https://www.lacity.org/events/feed'',
        websiteUrl = Some ''https://www.lacity.org/events'',
        isActive = True, lastSync = None, feedType = Rss \<rparr>,
      \<lparr> src_id = ''san-diego-chamber'', src_name = ''San Diego Chamber of Commerce'',
        src_city = ''San Diego'', src_state = ''CA'', src_type = Chamber,
        feedUrl = Some ''https://www.sdchamber.org/events.ics'',
        websiteUrl = Some ''https://www.sdchamber.org/events'',
        isActive = True, lastSync = None, feedType = ICal \<rparr>,
      \<lparr> src_id = ''austin-city'', src_name = ''Austin City Events'',
        src_city = ''Austin'', src_state = ''TX'', src_type = City,
        feedUrl = Some ''https://www.austintexas.gov/calendar/feed'',
        websiteUrl = Some ''https://www.austintexas.gov/calendar'',
        isActive = True, lastSync = None, feedType = ICal \<rparr>,
      \<lparr> src_id = ''houston-chamber'', src_name = ''Greater Houston Partnership'',
        src_city = ''Houston'', src_state = ''TX'', src_type = Chamber,
        feedUrl = Some ''https://www.houston.org/events.rss'',
        websiteUrl = Some ''https://www.houston.org/events'',
        isActive = True, lastSync = None, feedType = Rss \<rparr>,
      \<lparr> src_id = ''dallas-schools'', src_name = ''Dallas Independent School District'',
        src_city = ''Dallas'', src_state = ''TX'', src_type = School,
        feedUrl = Some ''https://www.dallasisd.org/calendar.ics'',
        websiteUrl = Some ''https://www.dallasisd.org/calendar'',
        isActive = True, lastSync = None, feedType = ICal \<rparr>,
      \<lparr> src_id = ''nyc-events'', src_name = ''NYC.gov Events'',
        src_city = ''New York'', src_state = ''NY'', src_type = City,
        feedUrl = Some ''https://www1.nyc.gov/calendar/api/v1/events.json'',
        websiteUrl = Some ''https://www1.nyc.gov/calendar'',
        isActive = True, lastSync = None, feedType = Json \<rparr>,
      \<lparr> src_id = ''brooklyn-chamber'', src_name = ''Brooklyn Chamber of Commerce'',
        src_city = ''Brooklyn'', src_state = ''NY'', src_type = Chamber,
        feedUrl = Some ''https://www.brooklynchamber.com/events/feed'',
        websiteUrl = Some ''https://www.brooklynchamber.com/events'',
        isActive = True, lastSync = None, feedType = Rss \<rparr>,
      \<lparr> src_id = ''miami-city'', src_name = ''City of Miami Events'',
        src_city = ''Miami'', src_state = ''FL'', src_type = City,
        feedUrl = Some ''https://www.miamigov.com/calendar/feed.ics'',
        websiteUrl = Some ''https://www.miamigov.com/calendar'',
        isActive = True, lastSync = None, feedType = ICal \<rparr>,
      \<lparr> src_id = ''orlando-chamber'', src_name = ''Orlando Regional Chamber'',
        src_city = ''Orlando'', src_state = ''FL'', src_type = Chamber,
        feedUrl = Some ''https://www.orlando.org/events.rss'',
        websiteUrl = Some ''https://www.orlando.org/events'',
        isActive = True, lastSync = None, feedType = Rss \<rparr>,
      \<lparr> src_id = ''chicago-city'', src_name = ''Chicago City Events'',
        src_city = ''Chicago'', src_state = ''IL'', src_type = City,
        feedUrl = Some ''https://www.chicago.gov/calendar.ics'',
        websiteUrl = Some ''https://www.chicago.gov/calendar'',
        isActive = True, lastSync = None, feedType = ICal \<rparr>,
      \<lparr> src_id = ''chicago-schools'', src_name = ''Chicago Public Schools'',
        src_city = ''Chicago'', src_state = ''IL'', src_type = School,
        feedUrl = Some ''https://www.cps.edu/calendar/feed'',
        websiteUrl = Some ''https://www.cps.edu/calendar'',
        isActive = True, lastSync = None, feedType = Rss \<rparr>,
      \<lparr> src_id = ''seattle-city'', src_name = ''Seattle City Events'',
        src_city = ''Seattle'', src_state = ''WA'', src_type = City,
        feedUrl = Some ''https://www.seattle.gov/calendar.ics'',
        websiteUrl = Some ''https://www.seattle.gov/calendar'',
        isActive = True, lastSync = None, feedType = ICal \<rparr>,
      \<lparr> src_id = ''seattle-chamber'', src_name = ''Seattle Metropolitan Chamber'',
        src_city = ''Seattle'', src_state = ''WA'', src_type = Chamber,
        feedUrl = Some ''https://www.seattlechamber.com/events/feed'',
        websiteUrl = Some ''https://www.seattlechamber.com/events'',
        isActive = True, lastSync = None, feedType = Rss \<rparr>,
      \<lparr> src_id = ''denver-city'', src_name = ''Denver City Events'',
        src_city = ''Denver'', src_state = ''CO'', src_type = City,
        feedUrl = Some ''https://www.denvergov.org/calendar.ics'',
        websiteUrl = Some ''https://www.denvergov.org/calendar'',
        isActive = True, lastSync = None, feedType = ICal \<rparr>,
      \<lparr> src_id = ''atlanta-chamber'', src_name = ''Metro Atlanta Chamber'',
        src_city = ''Atlanta'', src_state = ''GA'', src_type = Chamber,
        feedUrl = Some ''https://www.metroatlantachamber.com/events.rss'',
        websiteUrl = Some ''https://www.metroatlantachamber.com/events'',
        isActive = True, lastSync = None, feedType = Rss \<rparr>,
      \<lparr> src_id = ''phoenix-city'', src_name = ''Phoenix City Events'',
        src_city = ''Phoenix'', src_state = ''AZ'', src_type = City,
        feedUrl = Some ''https://www.phoenix.gov/calendar/feed.ics'',
        websiteUrl = Some ''https://www.phoenix.gov/calendar'',
        isActive = True, lastSync = None, feedType = ICal \<rparr>,
      \<lparr> src_id = ''philadelphia-schools'', src_name = ''School District of Philadelphia'',
        src_city = ''Philadelphia'', src_state = ''PA'', src_type = School,
        feedUrl = Some ''https://www.philasd.org/calendar.ics'',
        websiteUrl = Some ''https://www.philasd.org/calendar'',
        isActive = True, lastSync = None, feedType = ICal \<rparr> ]"

text \<open>\<open>this.sources.filter(s => s.isActive)\<close>, as positions in the registry.\<close>

definition activeSources :: "CalendarSource list \<Rightarrow> nat list" where
  "activeSources sources = filter (\<lambda>k. isActive (sources ! k)) [0 ..< length sources]"

text \<open>
  \<open>Promise.allSettled(batch.map(source => this.collectFromSource(source)))\<close>: one
  outcome for each source of the batch, fulfilled or rejected. The tasks of a batch are
  taken one after the other here.
\<close>

fun allSettled :: "env \<Rightarrow> CalendarSource list \<Rightarrow> nat list \<Rightarrow> nat \<Rightarrow> (exn + InsertEvent list) list \<times> nat" where
  "allSettled env sources [] t = ([], t)"
| "allSettled env sources (k # ks) t =
     (case collectFromSource env (sources ! k) t of
        (result, t1) \<Rightarrow> (case allSettled env sources ks t1 of (results, t2) \<Rightarrow> (result # results, t2)))"

text \<open>
  The \<open>forEach\<close> over the outcomes of a batch: a fulfilled outcome adds its events and
  sets \<open>lastSync\<close> of its source to the current time; a rejected one is logged.
\<close>

fun recordResults ::
  "env \<Rightarrow> (nat \<times> (exn + InsertEvent list)) list \<Rightarrow> InsertEvent list \<times> CalendarSource list \<Rightarrow> nat
     \<Rightarrow> (InsertEvent list \<times> CalendarSource list) \<times> nat" where
  "recordResults env [] (allEvents, sources) t = ((allEvents, sources), t)"
| "recordResults env ((k, Inr events) # rest) (allEvents, sources) t =
     recordResults env rest
       (allEvents @ events, sources[k := (sources ! k)\<lparr>lastSync := Some (clock env t)\<rparr>]) (Suc t)"
| "recordResults env ((k, Inl reason) # rest) (allEvents, sources) t =
     recordResults env rest (allEvents, sources) t"

text \<open>
  The loop of \<open>collectFromAllSources\<close> over the batches of five, with the pause between
  two batches.
\<close>

function collectBatches ::
  "env \<Rightarrow> nat list \<Rightarrow> nat \<Rightarrow> InsertEvent list \<times> CalendarSource list \<Rightarrow> nat
     \<Rightarrow> (InsertEvent list \<times> CalendarSource list) \<times> nat" where
  "collectBatches env active i (allEvents, sources) t =
     (if i < length active then
        (let batch = take 5 (drop i active) in
         case allSettled env sources batch t of
           (batchResults, t1) \<Rightarrow>
             (case recordResults env (zip batch batchResults) (allEvents, sources) t1 of
                (acc, t2) \<Rightarrow>
                  collectBatches env active (i + 5) acc
                    (if i + 5 < length active then Suc t2 else t2)))
      else ((allEvents, sources), t))"
  by pat_completeness auto
termination
  by (relation "measure (\<lambda>(env, active, i, acc, t). length active - i)") auto

text \<open>
  \<open>collectFromAllSources\<close> returns the events; the registry after the run is returned
  with them.
\<close>

definition collectFromAllSources ::
  "env \<Rightarrow> CalendarSource list \<Rightarrow> (InsertEvent list \<times> CalendarSource list) io" where
  "collectFromAllSources env sources =
     (\<lambda>t. case collectBatches env (activeSources sources) 0 ([], sources) t of
             (acc, t') \<Rightarrow> (Inr acc, t'))"

text \<open>
  The registry operations. Each returns its result and the registry it leaves behind.
\<close>

definition toggleSource :: "CalendarSource list \<Rightarrow> string \<Rightarrow> bool \<times> CalendarSource list" where
  "toggleSource sources sourceId =
     (let index = findIndex (\<lambda>s. src_id s = sourceId) sources in
      if index \<noteq> - 1 then
        (\<not> isActive (sources ! nat index),
         sources[nat index := (sources ! nat index)\<lparr>isActive := \<not> isActive (sources ! nat index)\<rparr>])
      else (False, sources))"

definition addSource :: "CalendarSource list \<Rightarrow> CalendarSource \<Rightarrow> bool \<times> CalendarSource list" where
  "addSource sources src =
     (case find (\<lambda>s. feedUrl s = feedUrl src \<or> src_id s = src_id src) sources of
        Some existingSource \<Rightarrow> (False, sources)
      | None \<Rightarrow> (True, sources @ [src]))"

definition removeSource :: "CalendarSource list \<Rightarrow> string \<Rightarrow> bool \<times> CalendarSource list" where
  "removeSource sources sourceId =
     (let index = findIndex (\<lambda>s. src_id s = sourceId) sources in
      if index \<noteq> - 1 then (True, take (nat index) sources @ drop (nat index + 1) sources)
      else (False, sources))"

section \<open>Notions the properties are stated with\<close>

text \<open>What a settled promise was fulfilled with; no elements when it was rejected.\<close>

definition resolved :: "(exn + 'a list) \<times> nat \<Rightarrow> 'a list" where
  "resolved r = (case fst r of Inr xs \<Rightarrow> xs | Inl e \<Rightarrow> [])"

text \<open>A sequence of feeds in descending order of confidence.\<close>

definition descending :: "DiscoveredFeed list \<Rightarrow> bool" where
  "descending feeds = sorted_wrt (\<lambda>a b. confidence b \<le> confidence a) feeds"

text \<open>
  The host of an absolute URL that has neither user information nor a port: the text
  between \<open>://\<close> and the next \<open>/\<close>, \<open>?\<close> or \<open>#\<close>.
\<close>

fun after_scheme :: "string \<Rightarrow> string" where
  "after_scheme (a # b # c # r) = (if [a, b, c] = ''://'' then r else after_scheme (b # c # r))"
| "after_scheme s = []"

definition url_host :: "string \<Rightarrow> string" where
  "url_host url =
     takeWhile (\<lambda>c. c \<noteq> CHR ''/'' \<and> c \<noteq> CHR ''?'' \<and> c \<noteq> CHR ''#'') (after_scheme url)"

text \<open>The number of sources of a registry that have no feed URL.\<close>

definition withoutFeedUrl :: "CalendarSource list \<Rightarrow> nat" where
  "withoutFeedUrl sources = length (filter (\<lambda>s. feedUrl s = None) sources)"

text \<open>
  The registries that can arise: the initial one, and what any operation of the class
  leaves behind when it is applied to one that can arise.
\<close>

inductive reachable :: "CalendarSource list \<Rightarrow> bool" where
  initial: "reachable initialSources"
| toggled: "reachable sources \<Longrightarrow> reachable (snd (toggleSource sources sourceId))"
| added: "reachable sources \<Longrightarrow> reachable (snd (addSource sources src))"
| removed: "reachable sources \<Longrightarrow> reachable (snd (removeSource sources sourceId))"
| collected: "reachable sources \<Longrightarrow> collectFromAllSources env sources t = (Inr (events, sources'), t')
              \<Longrightarrow> reachable sources'"

subsection \<open>Concrete environments and inputs\<close>

text \<open>
  A server that answers the listed URLs with status 200, no content type and an empty
  body, and gives no response for any other URL.
\<close>

definition answers :: "string list \<Rightarrow> nat \<Rightarrow> string \<Rightarrow> response option" where
  "answers urls t url =
     (if url \<in> set urls then Some \<lparr> status = 200, content_type = None, data = [] \<rparr> else None)"

text \<open>An environment in which no server answers.\<close>

definition quiet_env :: env where
  "quiet_env =
     \<lparr> http_get = answers [],
       http_head = answers [],
       clock = (\<lambda>t. 1700000000000 + int t),
       random = (\<lambda>t. 1 / 2),
       anchor_hrefs = (\<lambda>page. Inr []),
       url_pathname = (\<lambda>href base. None),
       url_origin = (\<lambda>u. Some (''https://'' @ url_host u)),
       parseICS = (\<lambda>payload. Inl ParseError),
       json_decode = (\<lambda>payload. None),
       date_parse = (\<lambda>s. 0),
       toLocaleTimeString = (\<lambda>i. []),
       rss_outcome = (\<lambda>t src. Inl ParseError),
       html_outcome = (\<lambda>t src. Inl ParseError) \<rparr>"

text \<open>
  The town of X has a site at \<open>x.gov\<close> with a calendar page, and a calendar at
  \<open>calendar.x.gov\<close>.
\<close>

definition town_env :: env where
  "town_env =
     quiet_env
       \<lparr> http_get := answers [''https://x.gov''],
         http_head := answers [''https://x.gov/calendar'', ''https://calendar.x.gov''] \<rparr>"

text \<open>The schools of Governors Island have a site with a calendar page.\<close>

definition school_env :: env where
  "school_env =
     quiet_env
       \<lparr> http_get := answers [''https://www.governorsislandschools.org''],
         http_head := answers [''https://www.governorsislandschools.org/calendar''] \<rparr>"

definition governors_island :: LocationInfo where
  "governors_island =
     \<lparr> city = ''Governors Island'', state = ''NY'', county = None, loc_type = PlaceCity \<rparr>"

text \<open>
  A calendar feed with one event that has a title and a start at 22:13:20 UTC on
  14 November 2023, and no \<open>DTEND\<close> and no \<open>DURATION\<close>. The decoder hands the event
  over with the start as its end.
\<close>

definition one_event :: ical_component where
  "one_event =
     \<lparr> ical_type = ''VEVENT'', ical_start = Some 1700000000000,
       ical_end = Some 1700000000000,
       ical_summary = Some (Text ''Farmers Market''), ical_description = None,
       ical_location = None \<rparr>"

definition calendar_env :: env where
  "calendar_env =
     quiet_env
       \<lparr> http_get := answers [''https://sfgov.org/calendar/feed''],
         parseICS := (\<lambda>payload. Inr [one_event]) \<rparr>"

text \<open>
  The same feed with an end an hour and a half after the start and with the description
  written with a parameter, \<open>DESCRIPTION;LANGUAGE=en:Fresh produce\<close>.
\<close>

definition described_event :: ical_component where
  "described_event =
     \<lparr> ical_type = ''VEVENT'', ical_start = Some 1700000000000,
       ical_end = Some 1700005400000,
       ical_summary = Some (Text ''Farmers Market''),
       ical_description = Some (ParamValue [(''LANGUAGE'', ''en'')] ''Fresh produce''),
       ical_location = None \<rparr>"

definition described_env :: env where
  "described_env =
     quiet_env
       \<lparr> http_get := answers [''https://sfgov.org/calendar/feed''],
         parseICS := (\<lambda>payload. Inr [described_event]) \<rparr>"

text \<open>A JSON entry with \<open>price: 0\<close>, no \<open>is_free\<close> and a description that speaks of a fee.\<close>

definition priced_entry :: json_event where
  "priced_entry =
     \<lparr> je_start_date = Some ''2025-01-01'', je_date = None, je_end_date = None,
       je_title = Some ''Open House'', je_name = None,
       je_description = Some ''Admission fee waived'', je_summary = None,
       je_location = None, je_attendees = None, je_image_url = None,
       je_is_free = None, je_price = Some (JNum 0) \<rparr>"

text \<open>A candidate source with a new id and the feed URL of the first initial source.\<close>

definition duplicate_source :: CalendarSource where
  "duplicate_source =
     \<lparr> src_id = ''another-id'', src_name = ''Another'', src_city = ''San Francisco'',
       src_state = ''CA'', src_type = City,
       feedUrl = Some ''https://sfgov.org/calendar/feed'', websiteUrl = None,
       isActive = False, lastSync = None, feedType = ICal \<rparr>"

text \<open>A server that answers every request with status 404.\<close>

definition notfound_env :: env where
  "notfound_env =
     quiet_env
       \<lparr> http_get := (\<lambda>t url. Some \<lparr> status = 404, content_type = None, data = [] \<rparr>),
         http_head := (\<lambda>t url. Some \<lparr> status = 404, content_type = None, data = [] \<rparr>) \<rparr>"

definition austin_schools :: OrgLocation where
  "austin_schools =
     \<lparr> city = ''Austin'', state = ''TX'', county = None, loc_type = PlaceCity,
       organizationType = School \<rparr>"

text \<open>A JSON feed for the New York source whose document holds the one priced entry.\<close>

definition json_env :: env where
  "json_env =
     quiet_env
       \<lparr> http_get := answers [''https://www1.nyc.gov/calendar/api/v1/events.json''],
         json_decode := (\<lambda>payload.
            Some \<lparr> doc_events = Entries [priced_entry], doc_items = Falsy, doc_data = Falsy \<rparr>) \<rparr>"

text \<open>Two candidate sources with different new ids and no feed URL.\<close>

definition no_url_source :: CalendarSource where
  "no_url_source =
     \<lparr> src_id = ''scraped-1'', src_name = ''Scraped One'', src_city = ''Reno'',
       src_state = ''NV'', src_type = Library, feedUrl = None,
       websiteUrl = Some ''https://example.org/one'', isActive = False, lastSync = None,
       feedType = Html \<rparr>"

definition other_no_url_source :: CalendarSource where
  "other_no_url_source =
     \<lparr> src_id = ''scraped-2'', src_name = ''Scraped Two'', src_city = ''Boise'',
       src_state = ''ID'', src_type = Parks, feedUrl = None,
       websiteUrl = Some ''https://example.org/two'', isActive = False, lastSync = None,
       feedType = Html \<rparr>"

section \<open>Properties of feed discovery\<close>

subsection \<open>Validation and probing never throw, and confidences stay in range\<close>

lemma classifyFeed_range:
  "3 / 10 \<le> snd (classifyFeed ct url) \<and> snd (classifyFeed ct url) \<le> 9 / 10"
  by (simp add: classifyFeed_def)

lemma govBoost_range: "3 / 10 \<le> c \<Longrightarrow> 3 / 10 \<le> govBoost url c"
  by (simp add: govBoost_def)

lemma validateFeedUrl_try_result:
  assumes "validateFeedUrl_try env url loc t = (Inr f, t')"
  shows "\<exists>ct. confidence f = min (govBoost url (snd (classifyFeed ct url))) 1"
    and "feedUrl (source f) = Some url"
  using assms
  unfolding validateFeedUrl_try_def io_bind_def axios_head_def Date_now_def io_of_def
    io_return_def Let_def
  by (auto simp add: case_prod_beta split: option.splits if_splits sum.splits)

lemma validateFeedUrl_total: "\<exists>r t'. validateFeedUrl env url loc t = (Inr r, t')"
  by (simp add: validateFeedUrl_def io_catch_def io_bind_def io_return_def
        split: prod.splits sum.splits)

lemma validateFeedUrl_Some:
  assumes "validateFeedUrl env url loc t = (Inr (Some f), t')"
  shows "\<exists>t''. validateFeedUrl_try env url loc t = (Inr f, t'')"
  using assms
  by (auto simp add: validateFeedUrl_def io_catch_def io_bind_def io_return_def
        split: prod.splits sum.splits)

lemma validateFeedUrl_confidence:
  assumes "validateFeedUrl env url loc t = (Inr (Some f), t')"
  shows "3 / 10 \<le> confidence f \<and> confidence f \<le> 1"
proof -
  obtain t'' where "validateFeedUrl_try env url loc t = (Inr f, t'')"
    using validateFeedUrl_Some [OF assms] by blast
  then obtain ct where c: "confidence f = min (govBoost url (snd (classifyFeed ct url))) 1"
    using validateFeedUrl_try_result(1) by blast
  have "3 / 10 \<le> govBoost url (snd (classifyFeed ct url))"
    using classifyFeed_range govBoost_range by blast
  with c show ?thesis by simp
qed

lemma validatePaths_confidence:
  assumes "validatePaths env baseUrl loc paths feeds t = ((oc, fs), t')"
    and "\<forall>f \<in> set feeds. 3 / 10 \<le> confidence f \<and> confidence f \<le> 1"
  shows "\<forall>f \<in> set fs. 3 / 10 \<le> confidence f \<and> confidence f \<le> 1"
  using assms
proof (induction paths arbitrary: feeds t)
  case Nil
  then show ?case by simp
next
  case (Cons path ps)
  let ?url = "if startsWith path ''http'' then path else baseUrl @ path"
  obtain r t1 where v: "validateFeedUrl env ?url loc t = (Inr r, t1)"
    using validateFeedUrl_total by blast
  show ?case
  proof (cases r)
    case None
    with v Cons.prems(1) have "validatePaths env baseUrl loc ps feeds t1 = ((oc, fs), t')"
      by simp
    then show ?thesis using Cons.IH Cons.prems(2) by blast
  next
    case (Some feed)
    with v Cons.prems(1)
    have "validatePaths env baseUrl loc ps (feeds @ [feed]) t1 = ((oc, fs), t')"
      by simp
    moreover have "\<forall>f \<in> set (feeds @ [feed]). 3 / 10 \<le> confidence f \<and> confidence f \<le> 1"
      using Cons.prems(2) validateFeedUrl_confidence v Some by auto
    ultimately show ?thesis using Cons.IH by blast
  qed
qed

lemma checkDomainForFeeds_total: "\<exists>fs t'. checkDomainForFeeds env domain loc t = (Inr fs, t')"
  by (simp add: checkDomainForFeeds_def Let_def split: prod.splits sum.splits)

lemma checkDomainForFeeds_confidence:
  assumes "checkDomainForFeeds env domain loc t = (Inr fs, t')"
  shows "\<forall>f \<in> set fs. 3 / 10 \<le> confidence f \<and> confidence f \<le> 1"
  using assms validatePaths_confidence [where feeds = "[]"]
  unfolding checkDomainForFeeds_def Let_def
  by (fastforce split: prod.splits sum.splits if_splits)

lemma probeDomains_total:
  "\<exists>fs t'. probeDomains env loc org citySlug stateSlug patterns feeds t = (Inr fs, t')"
proof (induction patterns arbitrary: feeds t)
  case Nil
  then show ?case by (simp add: io_return_def)
next
  case (Cons p ps)
  obtain found t1 where
    "checkDomainForFeeds env (replace (replace p ''{city}'' citySlug) ''{state}'' stateSlug)
       \<lparr> city = city loc, state = state loc, county = county loc, loc_type = PlaceCity,
         organizationType = org \<rparr> t = (Inr found, t1)"
    using checkDomainForFeeds_total by blast
  then show ?case using Cons.IH [of "feeds @ found" t1] by (simp add: io_bind_def)
qed

lemma probeDomains_confidence:
  assumes "probeDomains env loc org citySlug stateSlug patterns feeds t = (Inr fs, t')"
    and "\<forall>f \<in> set feeds. 3 / 10 \<le> confidence f \<and> confidence f \<le> 1"
  shows "\<forall>f \<in> set fs. 3 / 10 \<le> confidence f \<and> confidence f \<le> 1"
  using assms
proof (induction patterns arbitrary: feeds t)
  case Nil
  then show ?case by (simp add: io_return_def)
next
  case (Cons p ps)
  let ?loc = "\<lparr> city = city loc, state = state loc, county = county loc, loc_type = PlaceCity,
         organizationType = org \<rparr>"
  obtain found t1 where
    c: "checkDomainForFeeds env (replace (replace p ''{city}'' citySlug) ''{state}'' stateSlug)
       ?loc t = (Inr found, t1)"
    using checkDomainForFeeds_total by blast
  then have "probeDomains env loc org citySlug stateSlug ps (feeds @ found) t1 = (Inr fs, t')"
    using Cons.prems(1) by (simp add: io_bind_def)
  moreover have "\<forall>f \<in> set (feeds @ found). 3 / 10 \<le> confidence f \<and> confidence f \<le> 1"
    using Cons.prems(2) checkDomainForFeeds_confidence [OF c] by auto
  ultimately show ?case using Cons.IH by blast
qed

lemma discoverFeedsForLocation_total:
  "\<exists>fs t'. discoverFeedsForLocation env loc t = (Inr fs, t')"
proof -
  let ?c = "createCitySlug (city loc)" and ?s = "toLowerCase (state loc)"
  obtain g t1 where g: "discoverGovernmentFeeds env loc ?c ?s t = (Inr g, t1)"
    unfolding discoverGovernmentFeeds_def using probeDomains_total by blast
  obtain s t2 where s: "discoverSchoolFeeds env loc ?c ?s t1 = (Inr s, t2)"
    unfolding discoverSchoolFeeds_def using probeDomains_total by blast
  obtain c t3 where c: "discoverChamberFeeds env loc ?c ?s t2 = (Inr c, t3)"
    unfolding discoverChamberFeeds_def using probeDomains_total by blast
  show ?thesis
    using g s c by (simp add: discoverFeedsForLocation_def Let_def io_bind_def io_return_def)
qed

lemma discoverFeedsForLocation_parts:
  assumes "discoverFeedsForLocation env loc t = (Inr fs, t')"
  shows "\<exists>g s c t1 t2.
           discoverGovernmentFeeds env loc (createCitySlug (city loc)) (toLowerCase (state loc)) t
             = (Inr g, t1)
         \<and> discoverSchoolFeeds env loc (createCitySlug (city loc)) (toLowerCase (state loc)) t1
             = (Inr s, t2)
         \<and> discoverChamberFeeds env loc (createCitySlug (city loc)) (toLowerCase (state loc)) t2
             = (Inr c, t')
         \<and> fs = sort_key (\<lambda>f. - confidence f) (g @ s @ c)"
  using assms
  by (auto simp add: discoverFeedsForLocation_def Let_def io_bind_def io_return_def
        split: prod.splits sum.splits)

lemma discoverFeedsForLocation_confidence:
  assumes "discoverFeedsForLocation env loc t = (Inr fs, t')"
  shows "\<forall>f \<in> set fs. 3 / 10 \<le> confidence f \<and> confidence f \<le> 1"
proof -
  obtain g s c t1 t2 where
    g: "discoverGovernmentFeeds env loc (createCitySlug (city loc)) (toLowerCase (state loc)) t
          = (Inr g, t1)" and
    s: "discoverSchoolFeeds env loc (createCitySlug (city loc)) (toLowerCase (state loc)) t1
          = (Inr s, t2)" and
    c: "discoverChamberFeeds env loc (createCitySlug (city loc)) (toLowerCase (state loc)) t2
          = (Inr c, t')" and
    fs: "fs = sort_key (\<lambda>f. - confidence f) (g @ s @ c)"
    using discoverFeedsForLocation_parts [OF assms] by blast
  have "\<forall>f \<in> set g. 3 / 10 \<le> confidence f \<and> confidence f \<le> 1"
    using g probeDomains_confidence [where feeds = "[]"]
    unfolding discoverGovernmentFeeds_def by fastforce
  moreover have "\<forall>f \<in> set s. 3 / 10 \<le> confidence f \<and> confidence f \<le> 1"
    using s probeDomains_confidence [where feeds = "[]"]
    unfolding discoverSchoolFeeds_def by fastforce
  moreover have "\<forall>f \<in> set c. 3 / 10 \<le> confidence f \<and> confidence f \<le> 1"
    using c probeDomains_confidence [where feeds = "[]"]
    unfolding discoverChamberFeeds_def by fastforce
  ultimately show ?thesis unfolding fs by auto
qed

lemma discoverFeedsForLocation_descending:
  assumes "discoverFeedsForLocation env loc t = (Inr fs, t')"
  shows "sorted_wrt (\<lambda>a b. confidence b \<le> confidence a) fs"
proof -
  obtain xs where "fs = sort_key (\<lambda>f. - confidence f) xs"
    using discoverFeedsForLocation_parts [OF assms] by blast
  then have "sorted (map (\<lambda>f. - confidence f) fs)" by simp
  then show ?thesis by (simp add: sorted_map)
qed

lemma probeKnown_total: "\<exists>fs t'. probeKnown env loc patterns feeds t = (Inr fs, t')"
proof (induction patterns arbitrary: feeds t)
  case Nil
  then show ?case by (simp add: io_return_def)
next
  case (Cons p ps)
  obtain r t1 where "validateFeedUrl env p loc t = (Inr r, t1)"
    using validateFeedUrl_total by blast
  then show ?case
    using Cons.IH [of _ t1] by (simp add: io_bind_def)
qed

lemma probeKnown_confidence:
  assumes "probeKnown env loc patterns feeds t = (Inr fs, t')"
    and "\<forall>f \<in> set feeds. 3 / 10 \<le> confidence f \<and> confidence f \<le> 1"
  shows "\<forall>f \<in> set fs. 3 / 10 \<le> confidence f \<and> confidence f \<le> 1"
  using assms
proof (induction patterns arbitrary: feeds t)
  case Nil
  then show ?case by (simp add: io_return_def)
next
  case (Cons p ps)
  obtain r t1 where v: "validateFeedUrl env p loc t = (Inr r, t1)"
    using validateFeedUrl_total by blast
  show ?case
  proof (cases r)
    case None
    with v Cons.prems(1) have "probeKnown env loc ps feeds t1 = (Inr fs, t')"
      by (simp add: io_bind_def)
    then show ?thesis using Cons.IH Cons.prems(2) by blast
  next
    case (Some f)
    let ?g = "f\<lparr>confidence := min (confidence f + 3 / 10) 1\<rparr>"
    from v Some Cons.prems(1) have step: "probeKnown env loc ps (feeds @ [?g]) t1 = (Inr fs, t')"
      by (simp add: io_bind_def)
    have "3 / 10 \<le> confidence f \<and> confidence f \<le> 1"
      using validateFeedUrl_confidence v Some by blast
    then have "3 / 10 \<le> min (confidence f + 3 / 10) 1 \<and> min (confidence f + 3 / 10) 1 \<le> 1"
      unfolding min_def by auto
    then have g: "3 / 10 \<le> confidence ?g \<and> confidence ?g \<le> 1"
      by simp
    have all: "\<forall>x \<in> set (feeds @ [?g]). 3 / 10 \<le> confidence x \<and> confidence x \<le> 1"
    proof
      fix x
      assume "x \<in> set (feeds @ [?g])"
      then have "x \<in> set feeds \<or> x = ?g" by auto
      then show "3 / 10 \<le> confidence x \<and> confidence x \<le> 1"
        using Cons.prems(2) g by blast
    qed
    show ?thesis using Cons.IH [OF step all] .
  qed
qed

lemma checkKnownPatterns_total: "\<exists>fs t'. checkKnownPatterns env loc t = (Inr fs, t')"
  unfolding checkKnownPatterns_def using probeKnown_total by blast

lemma checkKnownPatterns_confidence:
  assumes "checkKnownPatterns env loc t = (Inr fs, t')"
  shows "\<forall>f \<in> set fs. 3 / 10 \<le> confidence f \<and> confidence f \<le> 1"
  using assms probeKnown_confidence [where feeds = "[]"]
  unfolding checkKnownPatterns_def by fastforce

lemma set_firstByFeedUrl: "set (firstByFeedUrl xs) \<subseteq> set xs"
  unfolding firstByFeedUrl_def by (auto dest: set_zip_leftD)

lemma discoverFeedsForPopularLocation_total:
  assumes "getStateAbbreviation stateName = Some code"
  shows "\<exists>fs t'. discoverFeedsForPopularLocation env cityName stateName t = (Inr fs, t')"
proof -
  let ?loc = "\<lparr> city = cityName, state = code, county = None, loc_type = PlaceCity \<rparr>"
  obtain a t1 where a: "discoverFeedsForLocation env ?loc t = (Inr a, t1)"
    using discoverFeedsForLocation_total by blast
  obtain b t2 where b: "checkKnownPatterns env ?loc t1 = (Inr b, t2)"
    using checkKnownPatterns_total by blast
  show ?thesis
    using assms a b
    by (simp add: discoverFeedsForPopularLocation_def Let_def io_bind_def io_return_def)
qed

lemma discoverFeedsForPopularLocation_parts:
  assumes "discoverFeedsForPopularLocation env cityName stateName t = (Inr fs, t')"
  shows "\<exists>code a b t1.
           getStateAbbreviation stateName = Some code
         \<and> discoverFeedsForLocation env
               \<lparr> city = cityName, state = code, county = None, loc_type = PlaceCity \<rparr> t
             = (Inr a, t1)
         \<and> checkKnownPatterns env
               \<lparr> city = cityName, state = code, county = None, loc_type = PlaceCity \<rparr> t1
             = (Inr b, t')
         \<and> fs = firstByFeedUrl (a @ b)"
  using assms
  by (auto simp add: discoverFeedsForPopularLocation_def Let_def io_bind_def io_return_def
        io_throw_def split: option.splits prod.splits sum.splits)

lemma discoverFeedsForPopularLocation_confidence:
  assumes "discoverFeedsForPopularLocation env cityName stateName t = (Inr fs, t')"
  shows "\<forall>f \<in> set fs. 3 / 10 \<le> confidence f \<and> confidence f \<le> 1"
proof -
  obtain code a b t1 where
    a: "discoverFeedsForLocation env
          \<lparr> city = cityName, state = code, county = None, loc_type = PlaceCity \<rparr> t = (Inr a, t1)" and
    b: "checkKnownPatterns env
          \<lparr> city = cityName, state = code, county = None, loc_type = PlaceCity \<rparr> t1 = (Inr b, t')" and
    fs: "fs = firstByFeedUrl (a @ b)"
    using discoverFeedsForPopularLocation_parts [OF assms] by blast
  have "\<forall>f \<in> set (a @ b). 3 / 10 \<le> confidence f \<and> confidence f \<le> 1"
    using discoverFeedsForLocation_confidence [OF a] checkKnownPatterns_confidence [OF b]
    by auto
  then show ?thesis using set_firstByFeedUrl [of "a @ b"] unfolding fs by blast
qed

lemma checkDomainForFeeds_absent:
  assumes "http_get env t (''https://'' @ domain) = None
           \<or> (\<exists>r. http_get env t (''https://'' @ domain) = Some r \<and> status r = 404)"
  shows "checkDomainForFeeds env domain loc t = (Inr [], Suc t)"
  using assms
  by (auto simp add: checkDomainForFeeds_def axios_get_def Let_def)

section \<open>Properties of feed collection\<close>

subsection \<open>The calendar and JSON parsers\<close>

lemma jsonEvent_result:
  "\<exists>e t'. jsonEvent env src event t = (Inr e, t')
      \<and> isFree e = (if jsonIsFree event then ''true'' else ''false'')"
  by (auto simp add: jsonEvent_def io_bind_def io_return_def Date_now_def Let_def
        split: option.splits)

lemma jsonEvents_result:
  "\<exists>evs t'. jsonEvents env src es acc t = (Inr evs, t')
      \<and> length evs = length acc + length es
      \<and> (\<forall>k < length acc. evs ! k = acc ! k)
      \<and> (\<forall>k < length es. isFree (evs ! (length acc + k))
                            = (if jsonIsFree (es ! k) then ''true'' else ''false''))"
proof (induction es arbitrary: acc t)
  case Nil
  then show ?case by (simp add: io_return_def)
next
  case (Cons event es)
  obtain e t1 where e: "jsonEvent env src event t = (Inr e, t1)"
    "isFree e = (if jsonIsFree event then ''true'' else ''false'')"
    using jsonEvent_result by blast
  obtain evs t' where r: "jsonEvents env src es (acc @ [e]) t1 = (Inr evs, t')"
    and n: "length evs = length (acc @ [e]) + length es"
    and keep: "\<forall>k < length (acc @ [e]). evs ! k = (acc @ [e]) ! k"
    and free: "\<forall>k < length es. isFree (evs ! (length (acc @ [e]) + k))
                            = (if jsonIsFree (es ! k) then ''true'' else ''false'')"
    using Cons.IH [of "acc @ [e]" t1] by blast
  have run: "jsonEvents env src (event # es) acc t = (Inr evs, t')"
    using e(1) r by (simp add: io_bind_def)
  have len: "length evs = length acc + length (event # es)"
    using n by simp
  have old: "\<forall>k < length acc. evs ! k = acc ! k"
  proof (intro allI impI)
    fix k
    assume k: "k < length acc"
    then have "evs ! k = (acc @ [e]) ! k" using keep by simp
    then show "evs ! k = acc ! k" using k by (simp add: nth_append)
  qed
  have new: "\<forall>k < length (event # es). isFree (evs ! (length acc + k))
                            = (if jsonIsFree ((event # es) ! k) then ''true'' else ''false'')"
  proof (intro allI impI)
    fix k
    assume k: "k < length (event # es)"
    show "isFree (evs ! (length acc + k))
            = (if jsonIsFree ((event # es) ! k) then ''true'' else ''false'')"
    proof (cases k)
      case 0
      have "evs ! length acc = (acc @ [e]) ! length acc" using keep by simp
      then have "evs ! length acc = e" by simp
      with 0 e(2) show ?thesis by simp
    next
      case (Suc j)
      with k have "j < length es" by simp
      with free have "isFree (evs ! (length (acc @ [e]) + j))
                            = (if jsonIsFree (es ! j) then ''true'' else ''false'')"
        by blast
      with Suc show ?thesis by simp
    qed
  qed
  from run len old new show ?case by blast
qed

lemma parseJSONFeed_entries:
  assumes "feedUrl src = Some url" "url \<noteq> []" "http_get env t url = Some r"
    "default_validateStatus (status r)" "json_decode env (data r) = Some doc"
    "documentEvents doc = Entries events"
  shows "parseJSONFeed env src t = jsonEvents env src (take 10 events) [] (Suc t)"
proof -
  obtain evs t' where "jsonEvents env src (take 10 events) [] (Suc t) = (Inr evs, t')"
    using jsonEvents_result by blast
  then show ?thesis
    using assms
    by (simp add: parseJSONFeed_def io_catch_def io_bind_def io_return_def axios_get_def)
qed

lemma icalEvent_skips:
  assumes "ical_start c = None \<or> ical_summary c = None \<or> ical_summary c = Some (Text [])"
  shows "icalEvent env src c = Inr None"
  using assms by (auto simp add: icalEvent_def split: option.splits)

lemma icalEvent_end:
  assumes "icalEvent env src c = Inr (Some e)"
  shows "\<exists>start. ical_start c = Some start \<and> startDate e = start
           \<and> endDate e = (case ical_end c of Some x \<Rightarrow> x | None \<Rightarrow> start + 60 * 60 * 1000)"
  using assms
  by (auto simp add: icalEvent_def Let_def split: option.splits if_splits sum.splits)

lemma icalEvent_structured_description:
  assumes "ical_type c = ''VEVENT''" "ical_start c = Some start" "ical_summary c = Some summary"
    "truthy_text summary" "ical_description c = Some d" "\<forall>s. d \<noteq> Text s"
  shows "icalEvent env src c = Inl TypeError"
  using assms
  by (cases d) (simp_all add: icalEvent_def descriptionText_def Let_def)

lemma parseICalFeed_components:
  assumes "feedUrl src = Some url" "url \<noteq> []" "http_get env t url = Some r"
    "default_validateStatus (status r)" "parseICS env (data r) = Inr comps"
  shows "parseICalFeed env src t
           = (case icalEvents env src comps [] of
                Inl error \<Rightarrow> (Inl (WrappedError error), Suc t)
              | Inr parsedEvents \<Rightarrow> (Inr (take 10 parsedEvents), Suc t))"
  using assms
  by (simp add: parseICalFeed_def io_catch_def io_bind_def io_of_def io_return_def
        io_throw_def axios_get_def split: sum.splits)

subsection \<open>The fallback generator\<close>

lemma timeClip_ge: "of_int m \<le> x \<Longrightarrow> m \<le> timeClip x"
proof -
  assume a: "of_int m \<le> x"
  have "m \<le> \<lfloor>x\<rfloor>" using a by (simp add: le_floor_iff)
  moreover have "\<lfloor>x\<rfloor> \<le> \<lceil>x\<rceil>" by (rule floor_le_ceiling)
  ultimately have "m \<le> \<lfloor>x\<rfloor> \<and> m \<le> \<lceil>x\<rceil>" by linarith
  then show ?thesis by (simp add: timeClip_def)
qed

lemma fallbackEvent_result:
  assumes "0 \<le> random env t"
  shows "\<exists>e. fallbackEvent env src now i t = (Inr e, t + 3)
             \<and> event_source e = src_id src \<and> now < startDate e"
proof -
  have "(of_int (now + 1) :: rat)
          \<le> of_int now + of_nat ((i + 1) * 24 * 60 * 60 * 1000) + random env t * 12 * 60 * 60 * 1000"
    using assms by simp
  then have "now + 1 \<le> timeClip (of_int now + of_nat ((i + 1) * 24 * 60 * 60 * 1000)
                                   + random env t * 12 * 60 * 60 * 1000)"
    by (rule timeClip_ge)
  then show ?thesis
    by (simp add: fallbackEvent_def io_bind_def io_return_def Math_random_def Let_def
          split: prod.splits)
qed

lemma fallbackLoop_result:
  assumes "\<forall>k. 0 \<le> random env k"
  shows "\<exists>evs. fallbackLoop env src now rounds events t = (Inr evs, t + 3 * length rounds)
           \<and> length evs = length events + length rounds
           \<and> (\<forall>e \<in> set evs. e \<in> set events \<or> (event_source e = src_id src \<and> now < startDate e))"
proof (induction rounds arbitrary: events t)
  case Nil
  then show ?case by (simp add: io_return_def)
next
  case (Cons i rest)
  obtain e where e: "fallbackEvent env src now i t = (Inr e, t + 3)"
    "event_source e = src_id src" "now < startDate e"
    using fallbackEvent_result assms by blast
  obtain evs where evs: "fallbackLoop env src now rest (events @ [e]) (t + 3)
                           = (Inr evs, t + 3 + 3 * length rest)"
    "length evs = length (events @ [e]) + length rest"
    "\<forall>x \<in> set evs. x \<in> set (events @ [e]) \<or> (event_source x = src_id src \<and> now < startDate x)"
    using Cons.IH by blast
  have "fallbackLoop env src now (i # rest) events t = (Inr evs, t + 3 * length (i # rest))"
    using e(1) evs(1) by (simp add: io_bind_def add.commute add.left_commute)
  moreover have "length evs = length events + length (i # rest)"
    using evs(2) by simp
  moreover have "\<forall>x \<in> set evs. x \<in> set events \<or> (event_source x = src_id src \<and> now < startDate x)"
    using evs(3) e(2,3) by auto
  ultimately show ?case by blast
qed

lemma generateFallbackEvents_result:
  assumes "\<forall>k. 0 \<le> random env k"
  shows "\<exists>evs. generateFallbackEvents env src t = (Inr evs, t + 10) \<and> length evs = 3
           \<and> (\<forall>e \<in> set evs. event_source e = src_id src \<and> clock env t < startDate e)"
proof -
  obtain evs where evs:
    "fallbackLoop env src (clock env t) [0, 1, 2] [] (Suc t) = (Inr evs, Suc t + 3 * length [0::nat, 1, 2])"
    "length evs = length ([] :: InsertEvent list) + length [0::nat, 1, 2]"
    "\<forall>e \<in> set evs. e \<in> set [] \<or> (event_source e = src_id src \<and> clock env t < startDate e)"
    using fallbackLoop_result [OF assms] by blast
  have "generateFallbackEvents env src t = (Inr evs, t + 10)"
    using evs(1) by (simp add: generateFallbackEvents_def io_bind_def Date_now_def)
  then show ?thesis using evs(2,3) by simp
qed

lemma collectFromSource_cases:
  "(parseFeed env src t = (Inr evs, t') \<longrightarrow> collectFromSource env src t = (Inr evs, t'))
   \<and> (parseFeed env src t = (Inl e, t') \<longrightarrow>
        collectFromSource env src t = generateFallbackEvents env src t')"
  by (simp add: collectFromSource_def io_catch_def)

subsection \<open>What a collection run writes\<close>

lemma map_update_same:
  assumes "f y = f (xs ! k)"
  shows "map f (xs[k := y]) = map f xs"
proof (cases "k < length xs")
  case True
  then show ?thesis using assms by (simp add: map_update list_update_same_conv)
next
  case False
  then show ?thesis by (simp add: list_update_beyond)
qed

lemma recordResults_frame:
  assumes "recordResults env prs (evs, srcs) t = ((evs', srcs'), t')"
  shows "map (\<lambda>s. s\<lparr>lastSync := None\<rparr>) srcs' = map (\<lambda>s. s\<lparr>lastSync := None\<rparr>) srcs"
  using assms
proof (induction env prs "(evs, srcs)" t arbitrary: evs srcs rule: recordResults.induct)
  case (1 env allEvents sources t)
  then show ?case by simp
next
  case (2 env k events rest allEvents sources t)
  let ?s = "sources[k := (sources ! k)\<lparr>lastSync := Some (clock env t)\<rparr>]"
  have "map (\<lambda>s. s\<lparr>lastSync := None\<rparr>) srcs' = map (\<lambda>s. s\<lparr>lastSync := None\<rparr>) ?s"
    using 2 by simp
  also have "\<dots> = map (\<lambda>s. s\<lparr>lastSync := None\<rparr>) sources"
    by (rule map_update_same) simp
  finally show ?case .
next
  case (3 env k reason rest allEvents sources t)
  then show ?case by simp
qed

lemma collectBatches_frame:
  assumes "collectBatches env active i (evs, srcs) t = ((evs', srcs'), t')"
  shows "map (\<lambda>s. s\<lparr>lastSync := None\<rparr>) srcs' = map (\<lambda>s. s\<lparr>lastSync := None\<rparr>) srcs"
  using assms
proof (induction env active i "(evs, srcs)" t arbitrary: evs srcs rule: collectBatches.induct)
  case (1 env active i allEvents sources t)
  show ?case
  proof (cases "i < length active")
    case False
    then show ?thesis using "1.prems" by simp
  next
    case True
    let ?batch = "take 5 (drop i active)"
    obtain results t1 where a: "allSettled env sources ?batch t = (results, t1)"
      by (cases "allSettled env sources ?batch t")
    obtain evs1 srcs1 t2 where
      r: "recordResults env (zip ?batch results) (allEvents, sources) t1 = ((evs1, srcs1), t2)"
      by (metis surj_pair)
    have rec: "collectBatches env active (i + 5) (evs1, srcs1)
                 (if i + 5 < length active then Suc t2 else t2) = ((evs', srcs'), t')"
      using "1.prems" True a r by (simp add: Let_def)
    have "map (\<lambda>s. s\<lparr>lastSync := None\<rparr>) srcs' = map (\<lambda>s. s\<lparr>lastSync := None\<rparr>) srcs1"
      using "1.hyps" [OF True refl a [symmetric] r [symmetric] rec] .
    also have "\<dots> = map (\<lambda>s. s\<lparr>lastSync := None\<rparr>) sources"
      using recordResults_frame [OF r] .
    finally show ?thesis .
  qed
qed

lemma collectFromAllSources_frame:
  "\<exists>events sources' t'.
      collectFromAllSources env sources t = (Inr (events, sources'), t')
    \<and> length sources' = length sources
    \<and> map (\<lambda>s. s\<lparr>lastSync := None\<rparr>) sources' = map (\<lambda>s. s\<lparr>lastSync := None\<rparr>) sources"
proof -
  obtain events sources' t' where
    c: "collectBatches env (activeSources sources) 0 ([], sources) t = ((events, sources'), t')"
    by (metis surj_pair)
  have m: "map (\<lambda>s. s\<lparr>lastSync := None\<rparr>) sources' = map (\<lambda>s. s\<lparr>lastSync := None\<rparr>) sources"
    using collectBatches_frame [OF c] .
  then have "length sources' = length sources"
    using map_eq_imp_length_eq by blast
  moreover have "collectFromAllSources env sources t = (Inr (events, sources'), t')"
    using c by (simp add: collectFromAllSources_def)
  ultimately show ?thesis using m by blast
qed

subsection \<open>The registry\<close>

lemma addSource_spec:
  "addSource sources src =
     (if \<exists>s \<in> set sources. feedUrl s = feedUrl src \<or> src_id s = src_id src
      then (False, sources) else (True, sources @ [src]))"
proof (cases "find (\<lambda>s. feedUrl s = feedUrl src \<or> src_id s = src_id src) sources")
  case None
  then have "\<not> (\<exists>s \<in> set sources. feedUrl s = feedUrl src \<or> src_id s = src_id src)"
    by (simp add: find_None_iff)
  with None show ?thesis by (simp add: addSource_def)
next
  case (Some existing)
  then obtain i where "i < length sources"
    and "feedUrl (sources ! i) = feedUrl src \<or> src_id (sources ! i) = src_id src"
    unfolding find_Some_iff by blast
  then have "\<exists>s \<in> set sources. feedUrl s = feedUrl src \<or> src_id s = src_id src"
    using nth_mem by blast
  with Some show ?thesis by (simp add: addSource_def)
qed

lemma withoutFeedUrl_map:
  "withoutFeedUrl sources = length (filter (\<lambda>u. u = None) (map feedUrl sources))"
  by (simp add: withoutFeedUrl_def filter_map comp_def)

lemma withoutFeedUrl_cong:
  "map feedUrl a = map feedUrl b \<Longrightarrow> withoutFeedUrl a = withoutFeedUrl b"
  by (simp add: withoutFeedUrl_map)

lemma withoutFeedUrl_add:
  assumes "withoutFeedUrl sources \<le> 1"
  shows "withoutFeedUrl (snd (addSource sources src)) \<le> 1"
proof (cases "\<exists>s \<in> set sources. feedUrl s = feedUrl src \<or> src_id s = src_id src")
  case True
  then show ?thesis using assms by (simp add: addSource_spec)
next
  case False
  show ?thesis
  proof (cases "feedUrl src")
    case None
    with False have "\<forall>s \<in> set sources. feedUrl s \<noteq> None" by auto
    then have "filter (\<lambda>s. feedUrl s = None) sources = []"
      by (simp add: filter_empty_conv)
    with None False show ?thesis by (simp add: addSource_spec withoutFeedUrl_def)
  next
    case (Some u)
    with False assms show ?thesis by (simp add: addSource_spec withoutFeedUrl_def)
  qed
qed

lemma filter_remove_nth_le:
  "length (filter P (take n xs @ drop (n + 1) xs)) \<le> length (filter P xs)"
proof -
  have "length (filter P (drop (n + 1) xs)) \<le> length (filter P (drop n xs))"
  proof (cases "drop n xs")
    case Nil
    then have "drop (n + 1) xs = []" by simp
    then show ?thesis by simp
  next
    case (Cons y ys)
    then have "drop (n + 1) xs = ys"
      by (metis Suc_eq_plus1 drop_Suc list.sel(3) tl_drop)
    with Cons show ?thesis by simp
  qed
  moreover have "filter P xs = filter P (take n xs) @ filter P (drop n xs)"
    by (metis append_take_drop_id filter_append)
  ultimately show ?thesis by simp
qed

lemma withoutFeedUrl_remove:
  assumes "withoutFeedUrl sources \<le> 1"
  shows "withoutFeedUrl (snd (removeSource sources sourceId)) \<le> 1"
  using assms filter_remove_nth_le [of "\<lambda>s. feedUrl s = None"]
  by (auto simp add: removeSource_def withoutFeedUrl_def Let_def intro: order_trans)

lemma withoutFeedUrl_toggle:
  "withoutFeedUrl (snd (toggleSource sources sourceId)) = withoutFeedUrl sources"
proof -
  have "map feedUrl (snd (toggleSource sources sourceId)) = map feedUrl sources"
    by (auto simp add: toggleSource_def Let_def intro: map_update_same)
  then show ?thesis by (rule withoutFeedUrl_cong)
qed

lemma withoutFeedUrl_collect:
  assumes "collectFromAllSources env sources t = (Inr (events, sources'), t')"
  shows "withoutFeedUrl sources' = withoutFeedUrl sources"
proof -
  obtain ev s2 t2 where
    "collectFromAllSources env sources t = (Inr (ev, s2), t2)"
    "map (\<lambda>s. s\<lparr>lastSync := None\<rparr>) s2 = map (\<lambda>s. s\<lparr>lastSync := None\<rparr>) sources"
    using collectFromAllSources_frame by blast
  with assms have m: "map (\<lambda>s. s\<lparr>lastSync := None\<rparr>) sources' = map (\<lambda>s. s\<lparr>lastSync := None\<rparr>) sources"
    by simp
  have "map feedUrl (map (\<lambda>s. s\<lparr>lastSync := None\<rparr>) sources')
          = map feedUrl (map (\<lambda>s. s\<lparr>lastSync := None\<rparr>) sources)"
    using m by simp
  then have "map feedUrl sources' = map feedUrl sources"
    by (simp add: comp_def)
  then show ?thesis by (rule withoutFeedUrl_cong)
qed

lemma withoutFeedUrl_initial: "withoutFeedUrl initialSources = 0"
  by code_simp

lemma reachable_withoutFeedUrl: "reachable sources \<Longrightarrow> withoutFeedUrl sources \<le> 1"
proof (induction rule: reachable.induct)
  case initial
  then show ?case by (simp add: withoutFeedUrl_initial)
next
  case (toggled sources sourceId)
  then show ?case by (simp add: withoutFeedUrl_toggle)
next
  case (added sources src)
  from added.IH show ?case by (rule withoutFeedUrl_add)
next
  case (removed sources sourceId)
  from removed.IH show ?case by (rule withoutFeedUrl_remove)
next
  case (collected sources env t events sources' t')
  then show ?case using withoutFeedUrl_collect by metis
qed

section \<open>The claims\<close>

text \<open>
  Claim C1. When the request for the root of a candidate domain gets no response (a
  transport or DNS failure) or the status 404, \<open>checkDomainForFeeds\<close> returns no feeds for
  that domain, whatever the organization category, and does not throw. A URL whose
  validation request gets no response gives \<open>null\<close>. Whatever the servers do,
  \<open>validateFeedUrl\<close>, \<open>checkDomainForFeeds\<close> and \<open>discoverFeedsForLocation\<close> return, and so
  does \<open>discoverFeedsForPopularLocation\<close> for every state name that
  \<open>getStateAbbreviation\<close> maps to a string. For the two state names it does not, the
  call throws before any request is made, so no failure of a domain or of a URL is its
  cause.
\<close>

theorem discovery_isolates_failures:
  "((http_get env t (''https://'' @ domain) = None
       \<or> (\<exists>r. http_get env t (''https://'' @ domain) = Some r \<and> status r = 404))
      \<longrightarrow> checkDomainForFeeds env domain orgloc t = (Inr [], Suc t))
   \<and> (http_head env t url = None \<longrightarrow> validateFeedUrl env url orgloc t = (Inr None, Suc t))
   \<and> (\<exists>outcome t'. validateFeedUrl env url orgloc t = (Inr outcome, t'))
   \<and> (\<exists>feeds t'. checkDomainForFeeds env domain orgloc t = (Inr feeds, t'))
   \<and> (\<exists>feeds t'. discoverFeedsForLocation env loc t = (Inr feeds, t'))
   \<and> (getStateAbbreviation stateName \<noteq> None \<longrightarrow>
        (\<exists>feeds t'. discoverFeedsForPopularLocation env cityName stateName t = (Inr feeds, t')))
   \<and> (getStateAbbreviation stateName = None \<longrightarrow>
        discoverFeedsForPopularLocation env cityName stateName t = (Inl TypeError, t))"
proof -
  have head: "http_head env t url = None \<longrightarrow> validateFeedUrl env url orgloc t = (Inr None, Suc t)"
    by (simp add: validateFeedUrl_def validateFeedUrl_try_def io_catch_def io_bind_def
          io_return_def axios_head_def)
  have popular: "getStateAbbreviation stateName \<noteq> None \<longrightarrow>
        (\<exists>feeds t'. discoverFeedsForPopularLocation env cityName stateName t = (Inr feeds, t'))"
    using discoverFeedsForPopularLocation_total by fastforce
  have early: "getStateAbbreviation stateName = None \<longrightarrow>
        discoverFeedsForPopularLocation env cityName stateName t = (Inl TypeError, t)"
    by (simp add: discoverFeedsForPopularLocation_def io_throw_def)
  show ?thesis
    using checkDomainForFeeds_absent head validateFeedUrl_total checkDomainForFeeds_total
      discoverFeedsForLocation_total popular early
    by blast
qed

theorem discovery_isolates_failures_witness:
  "(\<exists>r. http_get notfound_env 0 (''https://'' @ ''example.gov'') = Some r \<and> status r = 404)
   \<and> checkDomainForFeeds notfound_env ''example.gov'' austin_schools 0 = (Inr [], Suc 0)
   \<and> http_head quiet_env 0 ''https://example.gov/calendar'' = None
   \<and> validateFeedUrl quiet_env ''https://example.gov/calendar'' austin_schools 0 = (Inr None, Suc 0)
   \<and> getStateAbbreviation ''Texas'' \<noteq> None
   \<and> (\<exists>feeds t'. discoverFeedsForPopularLocation notfound_env ''Austin'' ''Texas'' 0 = (Inr feeds, t'))"
proof -
  have g: "http_get notfound_env 0 (''https://'' @ ''example.gov'')
             = Some \<lparr> status = 404, content_type = None, data = [] \<rparr>"
    by code_simp
  then have r: "\<exists>r. http_get notfound_env 0 (''https://'' @ ''example.gov'') = Some r \<and> status r = 404"
    by simp
  have h: "http_head quiet_env 0 ''https://example.gov/calendar'' = None"
    by code_simp
  have s: "getStateAbbreviation ''Texas'' \<noteq> None"
    by code_simp
  show ?thesis
    using r h s
      discovery_isolates_failures [of notfound_env 0 "''example.gov''" austin_schools
        "''https://example.gov/calendar''" _ "''Texas''" "''Austin''"]
      discovery_isolates_failures [of quiet_env 0 "''example.gov''" austin_schools
        "''https://example.gov/calendar''" _ "''Texas''" "''Austin''"]
    by blast
qed

text \<open>
  Claim C2. The confidence of every feed that \<open>validateFeedUrl\<close>, \<open>checkKnownPatterns\<close>,
  \<open>discoverFeedsForLocation\<close> or \<open>discoverFeedsForPopularLocation\<close> returns lies between 0
  and 1: neither the boost of 0.2 for government domains nor the boost of 0.3 for known
  patterns gives a confidence above 1.
\<close>

theorem confidence_in_unit_interval:
  "(validateFeedUrl env url orgloc t = (Inr (Some feed), t')
      \<longrightarrow> 0 \<le> confidence feed \<and> confidence feed \<le> 1)
   \<and> (checkKnownPatterns env loc t = (Inr feeds, t')
      \<longrightarrow> (\<forall>f \<in> set feeds. 0 \<le> confidence f \<and> confidence f \<le> 1))
   \<and> (discoverFeedsForLocation env loc t = (Inr feeds, t')
      \<longrightarrow> (\<forall>f \<in> set feeds. 0 \<le> confidence f \<and> confidence f \<le> 1))
   \<and> (discoverFeedsForPopularLocation env cityName stateName t = (Inr feeds, t')
      \<longrightarrow> (\<forall>f \<in> set feeds. 0 \<le> confidence f \<and> confidence f \<le> 1))"
proof -
  have a: "validateFeedUrl env url orgloc t = (Inr (Some feed), t')
             \<longrightarrow> 0 \<le> confidence feed \<and> confidence feed \<le> 1"
  proof
    assume "validateFeedUrl env url orgloc t = (Inr (Some feed), t')"
    then have "3 / 10 \<le> confidence feed \<and> confidence feed \<le> 1"
      by (rule validateFeedUrl_confidence)
    then show "0 \<le> confidence feed \<and> confidence feed \<le> 1" by simp
  qed
  have b: "checkKnownPatterns env loc t = (Inr feeds, t')
             \<longrightarrow> (\<forall>f \<in> set feeds. 0 \<le> confidence f \<and> confidence f \<le> 1)"
  proof (intro impI ballI)
    fix f
    assume "checkKnownPatterns env loc t = (Inr feeds, t')" and "f \<in> set feeds"
    then have "3 / 10 \<le> confidence f \<and> confidence f \<le> 1"
      using checkKnownPatterns_confidence by blast
    then show "0 \<le> confidence f \<and> confidence f \<le> 1" by simp
  qed
  have c: "discoverFeedsForLocation env loc t = (Inr feeds, t')
             \<longrightarrow> (\<forall>f \<in> set feeds. 0 \<le> confidence f \<and> confidence f \<le> 1)"
  proof (intro impI ballI)
    fix f
    assume "discoverFeedsForLocation env loc t = (Inr feeds, t')" and "f \<in> set feeds"
    then have "3 / 10 \<le> confidence f \<and> confidence f \<le> 1"
      using discoverFeedsForLocation_confidence by blast
    then show "0 \<le> confidence f \<and> confidence f \<le> 1" by simp
  qed
  have d: "discoverFeedsForPopularLocation env cityName stateName t = (Inr feeds, t')
             \<longrightarrow> (\<forall>f \<in> set feeds. 0 \<le> confidence f \<and> confidence f \<le> 1)"
  proof (intro impI ballI)
    fix f
    assume "discoverFeedsForPopularLocation env cityName stateName t = (Inr feeds, t')"
      and "f \<in> set feeds"
    then have "3 / 10 \<le> confidence f \<and> confidence f \<le> 1"
      using discoverFeedsForPopularLocation_confidence by blast
    then show "0 \<le> confidence f \<and> confidence f \<le> 1" by simp
  qed
  from a b c d show ?thesis by blast
qed

theorem confidence_in_unit_interval_witness:
  "\<exists>feeds t'. discoverFeedsForPopularLocation town_env ''X'' ''zz'' 0 = (Inr feeds, t')
      \<and> map confidence feeds = [7 / 10, 1]
      \<and> list_all (\<lambda>f. 0 \<le> confidence f \<and> confidence f \<le> 1) feeds"
proof -
  have "getStateAbbreviation ''zz'' = Some ''ZZ''" by code_simp
  then obtain feeds t' where
    p: "discoverFeedsForPopularLocation town_env ''X'' ''zz'' 0 = (Inr feeds, t')"
    using discoverFeedsForPopularLocation_total by blast
  have "map confidence (resolved (discoverFeedsForPopularLocation town_env ''X'' ''zz'' 0))
          = [7 / 10, 1]"
    by code_simp
  then have m: "map confidence feeds = [7 / 10, 1]"
    using p by (simp add: resolved_def)
  have "\<forall>f \<in> set feeds. 0 \<le> confidence f \<and> confidence f \<le> 1"
    using confidence_in_unit_interval [of town_env _ _ 0 _ t' _ feeds "''X''" "''zz''"] p
    by blast
  then have l: "list_all (\<lambda>f. 0 \<le> confidence f \<and> confidence f \<le> 1) feeds"
    by (simp add: list_all_iff)
  show ?thesis
  proof (intro exI conjI)
    show "discoverFeedsForPopularLocation town_env ''X'' ''zz'' 0 = (Inr feeds, t')" by (rule p)
    show "map confidence feeds = [7 / 10, 1]" by (rule m)
    show "list_all (\<lambda>f. 0 \<le> confidence f \<and> confidence f \<le> 1) feeds" by (rule l)
  qed
qed

text \<open>
  Claim C3 says that the boost of 0.2 is added exactly when the host of the validated URL
  ends in a government suffix. The code tests whether the text \<open>.gov\<close> occurs anywhere in
  the URL. Discovery for Governors Island, NY probes the school domain
  \<open>www.governorsislandschools.org\<close>; its calendar page gets the base confidence 0.5 and
  the boost, 0.7 in all, though its host does not end in \<open>.gov\<close>.
\<close>

theorem gov_boost_on_non_government_host:
  "map (\<lambda>f. (feedUrl (source f), feedType (source f), confidence f))
       (resolved (discoverFeedsForLocation school_env governors_island 0))
     = [(Some ''https://www.governorsislandschools.org/calendar'', Html, 7 / 10)]
   \<and> classifyFeed [] ''https://www.governorsislandschools.org/calendar'' = (Html, 5 / 10)
   \<and> govBoost ''https://www.governorsislandschools.org/calendar'' (5 / 10) = 7 / 10
   \<and> url_host ''https://www.governorsislandschools.org/calendar''
        = ''www.governorsislandschools.org''
   \<and> \<not> endsWith (url_host ''https://www.governorsislandschools.org/calendar'') ''.gov''"
  by code_simp

text \<open>
  Claim C4 says that both entry points return their feeds in descending order of
  confidence. \<open>discoverFeedsForLocation\<close> does (lemma \<open>discoverFeedsForLocation_descending\<close>
  above). \<open>discoverFeedsForPopularLocation\<close> appends the feeds of the known patterns
  after the sorted ones and does not sort again: for the town of X it returns the feed
  found at \<open>x.gov\<close>, of confidence 0.7, before the known-pattern feed at
  \<open>calendar.x.gov\<close>, of confidence 1.
\<close>

theorem popular_location_not_descending:
  "map (\<lambda>f. (feedUrl (source f), confidence f))
       (resolved (discoverFeedsForPopularLocation town_env ''X'' ''zz'' 0))
     = [(Some ''https://x.gov/calendar'', 7 / 10), (Some ''https://calendar.x.gov'', 1)]
   \<and> \<not> descending (resolved (discoverFeedsForPopularLocation town_env ''X'' ''zz'' 0))"
  by code_simp

text \<open>
  Claim C5. With \<open>Math.random()\<close> in [0, 1), \<open>generateFallbackEvents\<close> returns, for every
  source, exactly 3 events, each with the id of the source as its \<open>source\<close> and a start
  after the time read at the beginning of the call, and it does not throw. In
  \<open>collectFromSource\<close> it is called exactly when the real path fails: when \<open>parseFeed\<close>
  returns events, these are the result and neither the clock nor the random generator has
  been used any further; when \<open>parseFeed\<close> throws, the result is that of the generator.
\<close>

theorem fallback_generator_contract:
  assumes "\<forall>k. 0 \<le> random env k \<and> random env k < 1"
  shows "(\<exists>events. generateFallbackEvents env src t = (Inr events, t + 10)
            \<and> length events = 3
            \<and> (\<forall>e \<in> set events. event_source e = src_id src \<and> clock env t < startDate e))
       \<and> (\<forall>events t'. parseFeed env src t = (Inr events, t')
             \<longrightarrow> collectFromSource env src t = (Inr events, t'))
       \<and> (\<forall>error t'. parseFeed env src t = (Inl error, t')
             \<longrightarrow> collectFromSource env src t = generateFallbackEvents env src t')"
proof -
  from assms have "\<forall>k. 0 \<le> random env k" by simp
  then show ?thesis
    using generateFallbackEvents_result [of env src t] collectFromSource_cases [of env src t]
    by blast
qed

theorem fallback_generator_contract_witness:
  "(\<forall>k. 0 \<le> random quiet_env k \<and> random quiet_env k < 1)
   \<and> parseFeed quiet_env (hd initialSources) 0 = (Inl (WrappedError TransportError), 1)
   \<and> (\<exists>events. collectFromSource quiet_env (hd initialSources) 0 = (Inr events, 11)
         \<and> length events = 3
         \<and> list_all (\<lambda>e. event_source e = src_id (hd initialSources)
                           \<and> clock quiet_env 1 < startDate e) events)"
proof -
  have r: "\<forall>k. 0 \<le> random quiet_env k \<and> random quiet_env k < 1"
    by (simp add: quiet_env_def)
  have f: "parseFeed quiet_env (hd initialSources) 0 = (Inl (WrappedError TransportError), 1)"
    by code_simp
  obtain events where
    g: "generateFallbackEvents quiet_env (hd initialSources) 1 = (Inr events, 1 + 10)"
    and n: "length events = 3"
    and a: "\<forall>e \<in> set events. event_source e = src_id (hd initialSources)
                               \<and> clock quiet_env 1 < startDate e"
    using fallback_generator_contract [OF r, of "hd initialSources" 1] by blast
  have "collectFromSource quiet_env (hd initialSources) 0
          = generateFallbackEvents quiet_env (hd initialSources) 1"
    using fallback_generator_contract [OF r, of "hd initialSources" 0] f by blast
  with g have c: "collectFromSource quiet_env (hd initialSources) 0 = (Inr events, 11)"
    by simp
  have l: "list_all (\<lambda>e. event_source e = src_id (hd initialSources)
                           \<and> clock quiet_env 1 < startDate e) events"
    using a by (simp add: list_all_iff)
  have "\<exists>events. collectFromSource quiet_env (hd initialSources) 0 = (Inr events, 11)
         \<and> length events = 3
         \<and> list_all (\<lambda>e. event_source e = src_id (hd initialSources)
                           \<and> clock quiet_env 1 < startDate e) events"
    using c n l by blast
  with r f show ?thesis by blast
qed

text \<open>
  Claim C6. \<open>addSource\<close> returns \<open>false\<close> and leaves the registry as it is whenever some
  source of the registry has the feed URL or the id of the candidate; otherwise it returns
  \<open>true\<close> and the registry is the old one with the candidate appended.
\<close>

theorem addSource_rejects_duplicates:
  "addSource sources src =
     (if \<exists>s \<in> set sources. feedUrl s = feedUrl src \<or> src_id s = src_id src
      then (False, sources) else (True, sources @ [src]))"
  by (rule addSource_spec)

theorem addSource_rejects_duplicates_witness:
  "(\<exists>s \<in> set initialSources. feedUrl s = feedUrl duplicate_source \<or> src_id s = src_id duplicate_source)
   \<and> addSource initialSources duplicate_source = (False, initialSources)
   \<and> \<not> (\<exists>s \<in> set initialSources. feedUrl s = feedUrl no_url_source \<or> src_id s = src_id no_url_source)
   \<and> addSource initialSources no_url_source = (True, initialSources @ [no_url_source])"
proof -
  have d: "\<exists>s \<in> set initialSources. feedUrl s = feedUrl duplicate_source \<or> src_id s = src_id duplicate_source"
    by code_simp
  have n: "\<not> (\<exists>s \<in> set initialSources. feedUrl s = feedUrl no_url_source \<or> src_id s = src_id no_url_source)"
    by code_simp
  show ?thesis
    using d n addSource_rejects_duplicates [of initialSources duplicate_source]
      addSource_rejects_duplicates [of initialSources no_url_source]
    by simp
qed

text \<open>
  Claim C7 says that the calendar parser skips a component without a start or a title and
  gives an event with a title and a start and no end the end start plus one hour. The
  loop does skip such components (lemma \<open>icalEvent_skips\<close>), and it has the default of one
  hour for a component without \<open>end\<close> (lemma \<open>icalEvent_end\<close>). But the decoder gives
  every event that has a start an end, so the default is never taken: for the feed with
  one event with a title and a start and no \<open>DTEND\<close>, \<open>parseICalFeed\<close> returns one event
  whose end is its start, not its start plus one hour. And for an event whose description
  is written with a parameter the loop throws, \<open>parseICalFeed\<close> throws with it, and
  \<open>collectFromSource\<close> returns the events of the fallback generator in place of the event
  of the feed.
\<close>

theorem ical_default_end_not_applied:
  "map (\<lambda>e. (title e, startDate e, endDate e))
       (resolved (parseICalFeed calendar_env (hd initialSources) 0))
     = [(Text ''Farmers Market'', 1700000000000, 1700000000000)]
   \<and> \<not> list_all (\<lambda>e. endDate e = startDate e + 60 * 60 * 1000)
          (resolved (parseICalFeed calendar_env (hd initialSources) 0))
   \<and> icalEvent described_env (hd initialSources) described_event = Inl TypeError
   \<and> parseICalFeed described_env (hd initialSources) 0 = (Inl (WrappedError TypeError), 1)
   \<and> collectFromSource described_env (hd initialSources) 0
        = generateFallbackEvents described_env (hd initialSources) 1"
proof -
  have a: "map (\<lambda>e. (title e, startDate e, endDate e))
       (resolved (parseICalFeed calendar_env (hd initialSources) 0))
     = [(Text ''Farmers Market'', 1700000000000, 1700000000000)]"
    by code_simp
  have b: "\<not> list_all (\<lambda>e. endDate e = startDate e + 60 * 60 * 1000)
          (resolved (parseICalFeed calendar_env (hd initialSources) 0))"
    by code_simp
  have c: "icalEvent described_env (hd initialSources) described_event = Inl TypeError"
    by code_simp
  have d: "parseICalFeed described_env (hd initialSources) 0 = (Inl (WrappedError TypeError), 1)"
    by code_simp
  have p: "parseFeed described_env (hd initialSources) 0 = (Inl (WrappedError TypeError), 1)"
    by code_simp
  have e: "collectFromSource described_env (hd initialSources) 0
        = generateFallbackEvents described_env (hd initialSources) 1"
    using p by (simp add: collectFromSource_def io_catch_def)
  from a b c d e show ?thesis by blast
qed

text \<open>
  Claim C8. For a JSON entry whose \<open>price\<close> is the number 0 and which has no \<open>is_free\<close>
  field, the event \<open>parseJSONFeed\<close> makes of it has \<open>isFree = 'true'\<close>, whatever its
  description says. In a feed that is fetched and decoded, this holds for the event at the
  position of every such entry among the first ten, the ones the parser reads.
\<close>

theorem json_price_zero_is_free:
  "((je_price event = Some (JNum 0) \<and> je_is_free event = None)
      \<longrightarrow> jsonIsFree event
          \<and> (\<exists>e t'. jsonEvent env src event t = (Inr e, t') \<and> isFree e = ''true''))
   \<and> ((feedUrl src = Some url \<and> url \<noteq> [] \<and> http_get env t url = Some r
        \<and> default_validateStatus (status r) \<and> json_decode env (data r) = Some doc
        \<and> documentEvents doc = Entries events
        \<and> k < length events \<and> k < 10
        \<and> je_price (events ! k) = Some (JNum 0) \<and> je_is_free (events ! k) = None)
      \<longrightarrow> (\<exists>evs t'. parseJSONFeed env src t = (Inr evs, t')
                \<and> length evs = min 10 (length events) \<and> isFree (evs ! k) = ''true''))"
proof -
  have free: "je_price e = Some (JNum 0) \<Longrightarrow> jsonIsFree e" for e
    by (simp add: jsonIsFree_def)
  have entry: "(je_price event = Some (JNum 0) \<and> je_is_free event = None)
      \<longrightarrow> jsonIsFree event
          \<and> (\<exists>e t'. jsonEvent env src event t = (Inr e, t') \<and> isFree e = ''true'')"
    using free [of event] jsonEvent_result [of env src event t] by auto
  have feed: "(feedUrl src = Some url \<and> url \<noteq> [] \<and> http_get env t url = Some r
        \<and> default_validateStatus (status r) \<and> json_decode env (data r) = Some doc
        \<and> documentEvents doc = Entries events
        \<and> k < length events \<and> k < 10
        \<and> je_price (events ! k) = Some (JNum 0) \<and> je_is_free (events ! k) = None)
      \<longrightarrow> (\<exists>evs t'. parseJSONFeed env src t = (Inr evs, t')
                \<and> length evs = min 10 (length events) \<and> isFree (evs ! k) = ''true'')"
  proof
    assume h: "feedUrl src = Some url \<and> url \<noteq> [] \<and> http_get env t url = Some r
        \<and> default_validateStatus (status r) \<and> json_decode env (data r) = Some doc
        \<and> documentEvents doc = Entries events
        \<and> k < length events \<and> k < 10
        \<and> je_price (events ! k) = Some (JNum 0) \<and> je_is_free (events ! k) = None"
    then have p: "parseJSONFeed env src t = jsonEvents env src (take 10 events) [] (Suc t)"
      using parseJSONFeed_entries by blast
    obtain evs t' where
      run: "jsonEvents env src (take 10 events) [] (Suc t) = (Inr evs, t')"
      and len: "length evs = length ([] :: InsertEvent list) + length (take 10 events)"
      and each: "\<forall>j < length (take 10 events).
                   isFree (evs ! (length ([] :: InsertEvent list) + j))
                     = (if jsonIsFree (take 10 events ! j) then ''true'' else ''false'')"
      using jsonEvents_result [of env src "take 10 events" "[]" "Suc t"] by blast
    have k: "k < length (take 10 events)" using h by simp
    then have "take 10 events ! k = events ! k" by simp
    then have "jsonIsFree (take 10 events ! k)" using h free by simp
    with each k have "isFree (evs ! k) = ''true''" by simp
    moreover have "length evs = min 10 (length events)" using len by (simp add: min.commute)
    ultimately show "\<exists>evs t'. parseJSONFeed env src t = (Inr evs, t')
                \<and> length evs = min 10 (length events) \<and> isFree (evs ! k) = ''true''"
      using p run by auto
  qed
  from entry feed show ?thesis by blast
qed

theorem json_price_zero_is_free_witness:
  "je_price priced_entry = Some (JNum 0) \<and> je_is_free priced_entry = None
   \<and> \<not> str_includes (toLowerCase (or_default (je_description priced_entry) [])) ''free''
   \<and> (\<exists>evs t'. parseJSONFeed json_env (initialSources ! 6) 0 = (Inr evs, t')
          \<and> length evs = 1 \<and> isFree (evs ! 0) = ''true'')"
proof -
  have h: "feedUrl (initialSources ! 6) = Some ''https://www1.nyc.gov/calendar/api/v1/events.json''
        \<and> ''https://www1.nyc.gov/calendar/api/v1/events.json'' \<noteq> []
        \<and> http_get json_env 0 ''https://www1.nyc.gov/calendar/api/v1/events.json''
            = Some \<lparr> status = 200, content_type = None, data = [] \<rparr>
        \<and> default_validateStatus (status \<lparr> status = 200, content_type = None, data = [] \<rparr>)
        \<and> json_decode json_env (data \<lparr> status = 200, content_type = None, data = [] \<rparr>)
            = Some \<lparr> doc_events = Entries [priced_entry], doc_items = Falsy, doc_data = Falsy \<rparr>
        \<and> documentEvents \<lparr> doc_events = Entries [priced_entry], doc_items = Falsy, doc_data = Falsy \<rparr>
            = Entries [priced_entry]
        \<and> (0::nat) < length [priced_entry] \<and> (0::nat) < 10
        \<and> je_price ([priced_entry] ! 0) = Some (JNum 0) \<and> je_is_free ([priced_entry] ! 0) = None"
    by code_simp
  have e: "je_price priced_entry = Some (JNum 0) \<and> je_is_free priced_entry = None"
    by code_simp
  have d: "\<not> str_includes (toLowerCase (or_default (je_description priced_entry) [])) ''free''"
    by code_simp
  have "\<exists>evs t'. parseJSONFeed json_env (initialSources ! 6) 0 = (Inr evs, t')
          \<and> length evs = min 10 (length [priced_entry]) \<and> isFree (evs ! 0) = ''true''"
    using h json_price_zero_is_free [where src = "initialSources ! 6"
        and url = "''https://www1.nyc.gov/calendar/api/v1/events.json''" and env = json_env
        and t = 0 and r = "\<lparr> status = 200, content_type = None, data = [] \<rparr>"
        and doc = "\<lparr> doc_events = Entries [priced_entry], doc_items = Falsy, doc_data = Falsy \<rparr>"
        and events = "[priced_entry]" and k = 0]
    by blast
  then have "\<exists>evs t'. parseJSONFeed json_env (initialSources ! 6) 0 = (Inr evs, t')
          \<and> length evs = 1 \<and> isFree (evs ! 0) = ''true''"
    by simp
  with e d show ?thesis by blast
qed

text \<open>
  Claim C9. \<open>collectFromAllSources\<close> always returns, and the registry it leaves has the
  same length as the one it started from and, position by position, the same sources but
  for their \<open>lastSync\<close>: no source is added or removed and no other field is written.
\<close>

theorem collection_writes_only_lastSync:
  "\<exists>events sources' t'.
      collectFromAllSources env sources t = (Inr (events, sources'), t')
    \<and> length sources' = length sources
    \<and> map (\<lambda>s. s\<lparr>lastSync := None\<rparr>) sources' = map (\<lambda>s. s\<lparr>lastSync := None\<rparr>) sources"
  by (rule collectFromAllSources_frame)

text \<open>
  Claim C10. \<open>addSource\<close> rejects a candidate without a feed URL when a source without a
  feed URL is in the registry, whatever the candidate's id. Every source of the initial
  registry has a feed URL, and every registry that the operations of the class can
  produce from it holds at most one source without a feed URL.
\<close>

theorem at_most_one_source_without_feed_url:
  "((feedUrl src = None \<and> (\<exists>s \<in> set sources. feedUrl s = None))
      \<longrightarrow> addSource sources src = (False, sources))
   \<and> (reachable sources \<longrightarrow> withoutFeedUrl sources \<le> 1)
   \<and> withoutFeedUrl initialSources = 0"
proof -
  have "(feedUrl src = None \<and> (\<exists>s \<in> set sources. feedUrl s = None))
      \<longrightarrow> addSource sources src = (False, sources)"
    by (auto simp add: addSource_spec)
  then show ?thesis
    using reachable_withoutFeedUrl withoutFeedUrl_initial by blast
qed

theorem at_most_one_source_without_feed_url_witness:
  "reachable (initialSources @ [no_url_source])
   \<and> withoutFeedUrl (initialSources @ [no_url_source]) = 1
   \<and> feedUrl other_no_url_source = None
   \<and> src_id other_no_url_source \<notin> set (map src_id (initialSources @ [no_url_source]))
   \<and> addSource (initialSources @ [no_url_source]) other_no_url_source
        = (False, initialSources @ [no_url_source])"
proof -
  have a: "addSource initialSources no_url_source = (True, initialSources @ [no_url_source])"
    by code_simp
  have "reachable (snd (addSource initialSources no_url_source))"
    using reachable.initial by (rule reachable.added)
  then have r: "reachable (initialSources @ [no_url_source])"
    using a by simp
  have c: "withoutFeedUrl (initialSources @ [no_url_source]) = 1"
    by code_simp
  have n: "feedUrl other_no_url_source = None"
    by code_simp
  have i: "src_id other_no_url_source \<notin> set (map src_id (initialSources @ [no_url_source]))"
    by code_simp
  have e: "\<exists>s \<in> set (initialSources @ [no_url_source]). feedUrl s = None"
    by code_simp
  have "addSource (initialSources @ [no_url_source]) other_no_url_source
        = (False, initialSources @ [no_url_source])"
    using n e at_most_one_source_without_feed_url
        [of other_no_url_source "initialSources @ [no_url_source]"]
    by blast
  with r c n i show ?thesis by blast
qed

end
